theory Spec2Isabelle
  imports Complex_Main "HOL-Library.Log_Nat"
begin

section \<open>JavaScript values used by the program\<close>

subsection \<open>Numbers\<close>

text \<open>
  A JavaScript number is a finite binary64 value, one of the two infinities or NaN. A finite
  value is kept as the rational it stands for; the sign of zero is not represented. The
  result of reading a literal, of a product and of a quotient is the exact result rounded
  to the nearest binary64 value, ties to even, with overflow to an infinity.
\<close>

datatype number = NaN | NegInfinity | Fin rat | Infinity

definition is_inf :: "number \<Rightarrow> bool" where
  "is_inf a = (a = Infinity \<or> a = NegInfinity)"

fun sign_of :: "number \<Rightarrow> int" where
  "sign_of NaN = 0"
| "sign_of NegInfinity = - 1"
| "sign_of Infinity = 1"
| "sign_of (Fin x) = (if x < 0 then - 1 else if x = 0 then 0 else 1)"

fun js_neg :: "number \<Rightarrow> number" where
  "js_neg NaN = NaN"
| "js_neg NegInfinity = Infinity"
| "js_neg Infinity = NegInfinity"
| "js_neg (Fin x) = Fin (- x)"

text \<open>The nearest integer, a tie going to the even one.\<close>

definition rhe :: "rat \<Rightarrow> int" where
  "rhe r =
     (let f = \<lfloor>r\<rfloor>; d = r - of_int f
      in if d < 1 / 2 then f else if 1 / 2 < d then f + 1 else if even f then f else f + 1)"

text \<open>The binary exponent of a positive rational \<open>x\<close>: the \<open>e\<close> with \<open>2^e \<le> x < 2^(e+1)\<close>.\<close>

definition exponent :: "rat \<Rightarrow> int" where
  "exponent x =
     (case quotient_of x of
        (p, q) \<Rightarrow> (let k = bitlen p - bitlen q in if 2 powi k \<le> x then k else k - 1))"

text \<open>
  The exponent of the unit in the last place at \<open>x\<close>: 52 binary places below the leading
  bit, and never below the unit of the subnormal numbers.
\<close>

definition ulp_exponent :: "rat \<Rightarrow> int" where
  "ulp_exponent x = max (exponent x) (- 1022) - 52"

text \<open>A positive rational rounded to a multiple of its unit in the last place.\<close>

definition magnitude :: "rat \<Rightarrow> rat" where
  "magnitude x = of_int (rhe (x / 2 powi ulp_exponent x)) * 2 powi ulp_exponent x"

definition round_pos :: "rat \<Rightarrow> number" where
  "round_pos x = (if 2 powi 1024 \<le> magnitude x then Infinity else Fin (magnitude x))"

text \<open>The binary64 value of a rational.\<close>

definition round64 :: "rat \<Rightarrow> number" where
  "round64 x =
     (if x = 0 then Fin 0 else if 0 < x then round_pos x else js_neg (round_pos (- x)))"

text \<open>The operator \<open>*\<close> on numbers.\<close>

definition js_mul :: "number \<Rightarrow> number \<Rightarrow> number" where
  "js_mul a b =
     (if a = NaN \<or> b = NaN then NaN
      else case (a, b) of
        (Fin x, Fin y) \<Rightarrow> round64 (x * y)
      | _ \<Rightarrow> (let s = sign_of a * sign_of b
              in if s = 0 then NaN else if 0 < s then Infinity else NegInfinity))"

text \<open>The operator \<open>/\<close> on numbers; a zero divisor counts as positive zero.\<close>

definition js_div :: "number \<Rightarrow> number \<Rightarrow> number" where
  "js_div a b =
     (if a = NaN \<or> b = NaN then NaN
      else if is_inf a \<and> is_inf b then NaN
      else if is_inf a then
        (if 0 < sign_of a * (if sign_of b < 0 then - 1 else 1) then Infinity else NegInfinity)
      else if is_inf b then Fin 0
      else case (a, b) of
        (Fin x, Fin y) \<Rightarrow>
          (if y = 0 then (if x = 0 then NaN else if 0 < x then Infinity else NegInfinity)
           else round64 (x / y))
      | _ \<Rightarrow> NaN)"

text \<open>Comparison \<open>\<le>\<close> on numbers: false whenever an operand is NaN.\<close>

fun js_le :: "number \<Rightarrow> number \<Rightarrow> bool" where
  "js_le NaN _ = False"
| "js_le _ NaN = False"
| "js_le NegInfinity _ = True"
| "js_le _ Infinity = True"
| "js_le (Fin x) (Fin y) = (x \<le> y)"
| "js_le _ _ = False"

text \<open>\<open>Math.min\<close> of two numbers.\<close>

definition Math_min :: "number \<Rightarrow> number \<Rightarrow> number" where
  "Math_min a b = (if a = NaN \<or> b = NaN then NaN else if js_le a b then a else b)"

text \<open>Truthiness of an optional number: \<open>undefined\<close>, zero and NaN are falsy.\<close>

fun truthy_number :: "number option \<Rightarrow> bool" where
  "truthy_number None = False"
| "truthy_number (Some NaN) = False"
| "truthy_number (Some (Fin x)) = (x \<noteq> 0)"
| "truthy_number (Some _) = True"

subsection \<open>Strings\<close>

text \<open>
  A string is the list of its UTF-16 code units. Where a text only has code units below
  256 (messages, paths, names and values of the prober's output, diagnostic output), it is
  written as a list of 8-bit characters; \<open>units\<close> gives its code units. A list of 8-bit
  characters is also what a \<open>Buffer\<close> of bytes is.
\<close>

type_synonym js_string = "nat list"

definition units :: "string \<Rightarrow> js_string" where
  "units s = map of_char s"

definition LF :: char where "LF = CHR 0x0A"
definition CR :: char where "CR = CHR 0x0D"

text \<open>White space and line terminators, as \<open>trim\<close> and \<open>Number\<close> strip them.\<close>

definition is_ws_unit :: "nat \<Rightarrow> bool" where
  "is_ws_unit u =
     (u \<in> set [0x09, 0x0A, 0x0B, 0x0C, 0x0D, 0x20, 0xA0, 0x1680, 0x2028, 0x2029, 0x202F,
                0x205F, 0x3000, 0xFEFF]
      \<or> (0x2000 \<le> u \<and> u \<le> 0x200A))"

definition is_ws :: "char \<Rightarrow> bool" where
  "is_ws c = is_ws_unit (of_char c)"

text \<open>\<open>String.prototype.trim\<close>, on a text of 8-bit characters and on code units.\<close>

definition trim :: "string \<Rightarrow> string" where
  "trim s = rev (dropWhile is_ws (rev (dropWhile is_ws s)))"

definition trim_units :: "js_string \<Rightarrow> js_string" where
  "trim_units s = rev (dropWhile is_ws_unit (rev (dropWhile is_ws_unit s)))"

definition is_digit :: "nat \<Rightarrow> bool" where
  "is_digit u = (48 \<le> u \<and> u \<le> 57)"

definition hex_val :: "nat \<Rightarrow> nat option" where
  "hex_val u =
     (if 48 \<le> u \<and> u \<le> 57 then Some (u - 48)
      else if 65 \<le> u \<and> u \<le> 70 then Some (u - 55)
      else if 97 \<le> u \<and> u \<le> 102 then Some (u - 87)
      else None)"

text \<open>The value of a digit string in a radix; \<open>None\<close> when a code unit is no digit of it.\<close>

fun radix_val :: "nat \<Rightarrow> nat \<Rightarrow> js_string \<Rightarrow> nat option" where
  "radix_val r acc [] = Some acc"
| "radix_val r acc (c # cs) =
     (case hex_val c of
        None \<Rightarrow> None
      | Some d \<Rightarrow> if d < r then radix_val r (acc * r + d) cs else None)"

text \<open>
  \<open>NonDecimalIntegerLiteral\<close>: \<open>0x\<close>, \<open>0o\<close> or \<open>0b\<close> (either case) and at least one digit.
\<close>

definition parse_radix :: "js_string \<Rightarrow> nat option" where
  "parse_radix s =
     (case s of
        z # p # ds \<Rightarrow>
          (if z = of_char CHR ''0'' \<and> ds \<noteq> [] then
             (if p = of_char CHR ''x'' \<or> p = of_char CHR ''X'' then radix_val 16 0 ds
              else if p = of_char CHR ''o'' \<or> p = of_char CHR ''O'' then radix_val 8 0 ds
              else if p = of_char CHR ''b'' \<or> p = of_char CHR ''B'' then radix_val 2 0 ds
              else None)
           else None)
      | _ \<Rightarrow> None)"

text \<open>
  The exponent part of a decimal literal: nothing, or \<open>e\<close>/\<open>E\<close>, an optional sign and at
  least one digit. The result is the exponent, \<open>None\<close> when the text is no exponent part.
\<close>

definition parse_exponent :: "js_string \<Rightarrow> int option" where
  "parse_exponent s =
     (case s of
        [] \<Rightarrow> Some 0
      | e # r \<Rightarrow>
          (if e = of_char CHR ''e'' \<or> e = of_char CHR ''E'' then
             (let neg = (r \<noteq> [] \<and> hd r = of_char CHR ''-'');
                  ds = (if r \<noteq> [] \<and> (hd r = of_char CHR ''-'' \<or> hd r = of_char CHR ''+'')
                        then tl r else r)
              in if ds \<noteq> [] \<and> list_all is_digit ds then
                   (case radix_val 10 0 ds of
                      None \<Rightarrow> None
                    | Some n \<Rightarrow> Some (if neg then - int n else int n))
                 else None)
           else None))"

text \<open>
  \<open>StrUnsignedDecimalLiteral\<close>: \<open>Infinity\<close>, or digits with an optional fraction and an
  optional exponent (\<open>12\<close>, \<open>12.\<close>, \<open>12.5\<close>, \<open>.5\<close>, \<open>1e3\<close>); anything else is NaN. The
  value of the literal is rounded to binary64.
\<close>

definition parse_unsigned :: "js_string \<Rightarrow> number" where
  "parse_unsigned s =
     (if s = units ''Infinity'' then Infinity
      else
        (let ip = takeWhile is_digit s;
             r1 = dropWhile is_digit s;
             dot = (r1 \<noteq> [] \<and> hd r1 = of_char CHR ''.'');
             fp = (if dot then takeWhile is_digit (tl r1) else []);
             r2 = (if dot then dropWhile is_digit (tl r1) else r1)
         in if ip = [] \<and> fp = [] then NaN
            else
              (case (radix_val 10 0 (ip @ fp), parse_exponent r2) of
                 (Some m, Some e) \<Rightarrow>
                   (let k = e - int (length fp)
                    in round64 (if 0 \<le> k then of_nat m * 10 ^ nat k
                                else of_nat m / 10 ^ nat (- k)))
               | _ \<Rightarrow> NaN)))"

text \<open>
  \<open>StringToNumber\<close>: the text is trimmed; the empty text is 0; a radix literal takes no
  sign; a decimal literal takes an optional sign.
\<close>

definition StringToNumber :: "js_string \<Rightarrow> number" where
  "StringToNumber str =
     (let s = trim_units str
      in case s of
           [] \<Rightarrow> Fin 0
         | c # r \<Rightarrow>
             (case parse_radix s of
                Some n \<Rightarrow> round64 (of_nat n)
              | None \<Rightarrow>
                  if c = of_char CHR ''+'' then parse_unsigned r
                  else if c = of_char CHR ''-'' then js_neg (parse_unsigned r)
                  else parse_unsigned s))"

text \<open>\<open>Number(v)\<close> for a value that is a string or \<open>undefined\<close>.\<close>

fun Number_str :: "js_string option \<Rightarrow> number" where
  "Number_str None = NaN"
| "Number_str (Some s) = StringToNumber s"

text \<open>\<open>s.split(c)\<close> with a separator of one code unit: never empty, the pieces in order.\<close>

fun split_on :: "nat \<Rightarrow> js_string \<Rightarrow> js_string list" where
  "split_on c [] = [[]]"
| "split_on c (x # xs) =
     (if x = c then [] # split_on c xs
      else (case split_on c xs of [] \<Rightarrow> [[x]] | l # ls \<Rightarrow> (x # l) # ls))"

text \<open>
  \<open>s.split(/\r?\n/)\<close>: the text is scanned from the left; at a line feed, or at a carriage
  return directly followed by a line feed, the piece read so far ends and the match is
  skipped; the rest of the text after the last match is the last piece.
\<close>

fun push_front :: "nat \<Rightarrow> js_string list \<Rightarrow> js_string list" where
  "push_front c [] = [[c]]"
| "push_front c (l # ls) = (c # l) # ls"

fun split_lines :: "js_string \<Rightarrow> js_string list" where
  "split_lines [] = [[]]"
| "split_lines [c] = (if c = 10 then [[], []] else [[c]])"
| "split_lines (c # d # rest) =
     (if c = 10 then [] # split_lines (d # rest)
      else if c = 13 \<and> d = 10 then [] # split_lines rest
      else push_front c (split_lines (d # rest)))"

subsection \<open>Decoding a chunk of bytes\<close>

text \<open>
  \<open>data.toString()\<close> on a \<open>Buffer\<close>: the bytes are decoded as UTF-8. A byte that cannot
  start or continue a sequence, and a sequence that the end of the buffer cuts short, give
  the replacement character U+FFFD; a code point above U+FFFF gives a surrogate pair. The
  state of the decoder is the number of continuation bytes still needed, the code point so
  far and the bounds for the next byte.
\<close>

definition code_point_units :: "nat \<Rightarrow> js_string" where
  "code_point_units cp =
     (if cp < 0x10000 then [cp]
      else [0xD800 + (cp - 0x10000) div 0x400, 0xDC00 + (cp - 0x10000) mod 0x400])"

fun utf8_decode :: "nat \<Rightarrow> nat \<Rightarrow> nat \<Rightarrow> nat \<Rightarrow> string \<Rightarrow> js_string" where
  "utf8_decode needed cp lower upper [] = (if needed \<noteq> 0 then [0xFFFD] else [])"
| "utf8_decode needed cp lower upper (c # cs) =
     (let b = of_char c
      in if needed \<noteq> 0 \<and> lower \<le> b \<and> b \<le> upper then
           (if needed = 1 then code_point_units (cp * 64 + b mod 64) @ utf8_decode 0 0 0x80 0xBF cs
            else utf8_decode (needed - 1) (cp * 64 + b mod 64) 0x80 0xBF cs)
         else
           (if needed \<noteq> 0 then [0xFFFD] else []) @
           (if b < 0x80 then b # utf8_decode 0 0 0x80 0xBF cs
            else if 0xC2 \<le> b \<and> b \<le> 0xDF then utf8_decode 1 (b mod 32) 0x80 0xBF cs
            else if 0xE0 \<le> b \<and> b \<le> 0xEF then
              utf8_decode 2 (b mod 16) (if b = 0xE0 then 0xA0 else 0x80)
                (if b = 0xED then 0x9F else 0xBF) cs
            else if 0xF0 \<le> b \<and> b \<le> 0xF4 then
              utf8_decode 3 (b mod 8) (if b = 0xF0 then 0x90 else 0x80)
                (if b = 0xF4 then 0x8F else 0xBF) cs
            else 0xFFFD # utf8_decode 0 0 0x80 0xBF cs))"

definition toString :: "string \<Rightarrow> js_string" where
  "toString data = utf8_decode 0 0 0x80 0xBF data"

section \<open>Shared types\<close>

text \<open>
  The index of an audio track is a whole number. An optional field is \<open>None\<close> when it is
  \<open>undefined\<close>.
\<close>

record ExtractTrackRequest =
  filePath :: string
  audioIndex :: int
  duration :: "number option"

record ExtractTrackResponse =
  res_audioIndex :: int
  outputPath :: string

record ExtractProgressEvent =
  ev_audioIndex :: int
  progress :: number

section \<open>The progress stream of the encoder\<close>

text \<open>
  \<open>const [key, value] = line.split("=")\<close>: the first piece and the second one, each
  \<open>undefined\<close> when the array is too short.
\<close>

definition line_key :: "js_string \<Rightarrow> js_string option" where
  "line_key line =
     (case split_on (of_char CHR ''='') line of [] \<Rightarrow> None | key # _ \<Rightarrow> Some key)"

definition line_value :: "js_string \<Rightarrow> js_string option" where
  "line_value line =
     (case split_on (of_char CHR ''='') line of _ # v # _ \<Rightarrow> Some v | _ \<Rightarrow> None)"

text \<open>
  The body of the loop over the complete lines: on a line with key \<open>out_time_ms\<close>, and a
  truthy \<open>request.duration\<close>, the progress value \<open>Math.min(ms / (duration * 1000000), 1)\<close>
  is computed; \<open>None\<close> when the branch is not entered.
\<close>

definition line_progress :: "ExtractTrackRequest \<Rightarrow> js_string \<Rightarrow> number option" where
  "line_progress request line =
     (if line_key line = Some (units ''out_time_ms'') \<and> truthy_number (duration request) then
        (case duration request of
           None \<Rightarrow> None
         | Some d \<Rightarrow>
             (let ms = Number_str (line_value line)
              in Some (Math_min (js_div ms (js_mul d (Fin 1000000))) (Fin 1))))
      else None)"

text \<open>
  What one line sends to the renderer: the event is sent when a progress value was computed
  and the main window exists.
\<close>

definition line_events :: "ExtractTrackRequest \<Rightarrow> bool \<Rightarrow> js_string \<Rightarrow> ExtractProgressEvent list" where
  "line_events request has_window line =
     (case line_progress request line of
        None \<Rightarrow> []
      | Some p \<Rightarrow>
          if has_window then [\<lparr>ev_audioIndex = audioIndex request, progress = p\<rparr>] else [])"

text \<open>
  The handler of \<open>child.stdout.on("data")\<close>. \<open>data\<close> is the chunk of bytes: its text
  \<open>data.toString()\<close> is appended to the buffer, the buffer is split into lines, the last
  piece is popped and becomes the new buffer, and the other pieces are processed in order.
  The result is the new buffer, the lines processed and the events sent.
\<close>

definition stdout_data ::
  "ExtractTrackRequest \<Rightarrow> bool \<Rightarrow> js_string \<Rightarrow> string
    \<Rightarrow> js_string \<times> js_string list \<times> ExtractProgressEvent list"
where
  "stdout_data request has_window buffer data =
     (let lines = split_lines (buffer @ toString data);
          buffer' = (if lines = [] then [] else last lines);
          lines' = butlast lines
      in (buffer', lines', concat (map (line_events request has_window) lines')))"

text \<open>The handler run on the chunks of a job in their order of arrival.\<close>

fun run_stdout ::
  "ExtractTrackRequest \<Rightarrow> bool \<Rightarrow> js_string \<Rightarrow> string list
    \<Rightarrow> js_string \<times> js_string list \<times> ExtractProgressEvent list"
where
  "run_stdout request has_window buffer [] = (buffer, [], [])"
| "run_stdout request has_window buffer (data # rest) =
     (case stdout_data request has_window buffer data of
        (buffer', ls, es) \<Rightarrow>
          (case run_stdout request has_window buffer' rest of
             (buffer'', ls', es') \<Rightarrow> (buffer'', ls @ ls', es @ es')))"

text \<open>The progress values sent during a job whose buffer starts empty.\<close>

definition sent_progress :: "ExtractTrackRequest \<Rightarrow> bool \<Rightarrow> string list \<Rightarrow> number list" where
  "sent_progress request has_window chunks =
     map progress (snd (snd (run_stdout request has_window [] chunks)))"

text \<open>The number of times the progress formula, and so its division, is evaluated.\<close>

definition progress_evaluations :: "ExtractTrackRequest \<Rightarrow> string list \<Rightarrow> nat" where
  "progress_evaluations request chunks =
     length (filter (\<lambda>line. line_progress request line \<noteq> None)
       (fst (snd (run_stdout request True [] chunks))))"

text \<open>The elapsed times that the \<open>out_time_ms\<close> lines of a job carry, as numbers.\<close>

definition out_time_values :: "ExtractTrackRequest \<Rightarrow> string list \<Rightarrow> number list" where
  "out_time_values request chunks =
     map (\<lambda>line. Number_str (line_value line))
       (filter (\<lambda>line. line_key line = Some (units ''out_time_ms''))
         (fst (snd (run_stdout request True [] chunks))))"

section \<open>Parsed prober output\<close>

text \<open>
  The values that \<open>JSON.parse\<close> returns. The members of an object are kept in the order of
  the text; a later member with the same name overrides an earlier one. A property read
  yields a value or \<open>undefined\<close>, which is \<open>None\<close>.
\<close>

datatype json =
    JNull
  | JBool bool
  | JNum number
  | JStr string
  | JArr "json list"
  | JObj "(string \<times> json) list"

datatype js_error =
    Error string
  | SyntaxError string
  | TypeError string
  | SystemError string

fun error_message :: "js_error \<Rightarrow> string" where
  "error_message (Error m) = m"
| "error_message (SyntaxError m) = m"
| "error_message (TypeError m) = m"
| "error_message (SystemError m) = m"

text \<open>
  \<open>v.name\<close> for a value \<open>v\<close> that is not \<open>null\<close>: an own member of an object. None of the
  names read by the program is inherited by an object or is a property of a string, a
  number, a boolean or an array.
\<close>

fun get_prop :: "json \<Rightarrow> string \<Rightarrow> json option" where
  "get_prop (JObj members) name = map_of (rev members) name"
| "get_prop _ name = None"

text \<open>\<open>v?.name\<close>: \<open>undefined\<close> when \<open>v\<close> is \<open>undefined\<close> or \<open>null\<close>.\<close>

fun opt_prop :: "json option \<Rightarrow> string \<Rightarrow> json option" where
  "opt_prop None name = None"
| "opt_prop (Some JNull) name = None"
| "opt_prop (Some v) name = get_prop v name"

text \<open>Truthiness of a value.\<close>

fun truthy :: "json option \<Rightarrow> bool" where
  "truthy None = False"
| "truthy (Some JNull) = False"
| "truthy (Some (JBool b)) = b"
| "truthy (Some (JNum n)) = truthy_number (Some n)"
| "truthy (Some (JStr s)) = (s \<noteq> [])"
| "truthy (Some (JArr _)) = True"
| "truthy (Some (JObj _)) = True"

text \<open>
  Conversion of a parsed value to a string fails with a TypeError on an object that has an
  own member \<open>toString\<close> (no parsed value is callable, and the inherited \<open>valueOf\<close> returns
  the object), and on an array that holds such an object at any depth.
\<close>

fun to_string_throws :: "json \<Rightarrow> bool" where
  "to_string_throws (JObj members) = (map_of (rev members) ''toString'' \<noteq> None)"
| "to_string_throws (JArr xs) = list_ex to_string_throws xs"
| "to_string_throws _ = False"

text \<open>
  The number that the text of an array stands for. The text joins the elements with commas,
  \<open>null\<close> giving the empty text; with two or more elements it holds a comma and is no
  numeric literal. A number element is printed and read back unchanged.
\<close>

fun array_number :: "json list \<Rightarrow> number" where
  "array_number [] = Fin 0"
| "array_number [JNull] = Fin 0"
| "array_number [JBool b] = NaN"
| "array_number [JNum n] = n"
| "array_number [JStr s] = StringToNumber (units s)"
| "array_number [JArr ys] = array_number ys"
| "array_number [JObj members] = NaN"
| "array_number (x # y # zs) = NaN"

text \<open>\<open>Number(v)\<close> for a parsed value.\<close>

fun Number_json :: "json \<Rightarrow> js_error + number" where
  "Number_json JNull = Inr (Fin 0)"
| "Number_json (JBool b) = Inr (Fin (if b then 1 else 0))"
| "Number_json (JNum n) = Inr n"
| "Number_json (JStr s) = Inr (StringToNumber (units s))"
| "Number_json (JArr xs) =
     (if to_string_throws (JArr xs) then Inl (TypeError ''Cannot convert object to primitive value'')
      else Inr (array_number xs))"
| "Number_json (JObj members) =
     (if to_string_throws (JObj members) then Inl (TypeError ''Cannot convert object to primitive value'')
      else Inr NaN)"

text \<open>
  The fields that are copied from the output of the prober hold whatever value the output
  has there; the fields that go through \<open>Number\<close> hold a number; each is \<open>None\<close> when it
  is \<open>undefined\<close>.
\<close>

record AudioTrackInfo =
  track_audioIndex :: int
  streamIndex :: "json option"
  codecName :: "json option"
  channels :: "json option"
  sampleRate :: "number option"
  bitRate :: "number option"
  tags :: "json option"

record ProbeResult =
  probe_filePath :: string
  probe_duration :: "number option"
  formatName :: "json option"
  formatLongName :: "json option"
  audioTracks :: "AudioTrackInfo list"

section \<open>The probe\<close>

text \<open>\<open>v ? Number(v) : undefined\<close>.\<close>

definition numeric_field :: "json option \<Rightarrow> js_error + number option" where
  "numeric_field v =
     (if truthy v then
        (case v of
           None \<Rightarrow> Inr None
         | Some j \<Rightarrow> (case Number_json j of Inl e \<Rightarrow> Inl e | Inr n \<Rightarrow> Inr (Some n)))
      else Inr None)"

text \<open>The object pushed for an audio stream.\<close>

definition track_of :: "int \<Rightarrow> json \<Rightarrow> js_error + AudioTrackInfo" where
  "track_of idx stream =
     (case numeric_field (get_prop stream ''sample_rate'') of
        Inl e \<Rightarrow> Inl e
      | Inr sr \<Rightarrow>
          (case numeric_field (get_prop stream ''bit_rate'') of
             Inl e \<Rightarrow> Inl e
           | Inr br \<Rightarrow>
               Inr \<lparr>track_audioIndex = idx,
                    streamIndex = get_prop stream ''index'',
                    codecName = get_prop stream ''codec_name'',
                    channels = get_prop stream ''channels'',
                    sampleRate = sr,
                    bitRate = br,
                    tags = get_prop stream ''tags''\<rparr>))"

text \<open>The test \<open>stream.codec_type !== "audio"\<close> of the loop, negated.\<close>

definition is_audio :: "json \<Rightarrow> bool" where
  "is_audio stream = (get_prop stream ''codec_type'' = Some (JStr ''audio''))"

text \<open>
  The loop over the streams; \<open>idx\<close> is the counter \<open>audioIndex\<close> and \<open>tracks\<close> the array
  \<open>audioTracks\<close> built so far. Reading \<open>codec_type\<close> of a \<open>null\<close> stream throws.
\<close>

fun scan_streams :: "json list \<Rightarrow> int \<Rightarrow> AudioTrackInfo list \<Rightarrow> js_error + AudioTrackInfo list" where
  "scan_streams [] idx tracks = Inr tracks"
| "scan_streams (stream # rest) idx tracks =
     (if stream = JNull then
        Inl (TypeError ''Cannot read properties of null (reading 'codec_type')'')
      else if \<not> is_audio stream then
        scan_streams rest idx tracks
      else
        (case track_of idx stream of
           Inl e \<Rightarrow> Inl e
         | Inr t \<Rightarrow> scan_streams rest (idx + 1) (tracks @ [t])))"

text \<open>\<open>Array.isArray(parsed.streams) ? parsed.streams : []\<close>, for \<open>parsed\<close> not \<open>null\<close>.\<close>

definition streams_of :: "json \<Rightarrow> json list" where
  "streams_of parsed = (case get_prop parsed ''streams'' of Some (JArr xs) \<Rightarrow> xs | _ \<Rightarrow> [])"

text \<open>The body of the \<open>try\<close> block after \<open>JSON.parse\<close> has returned \<open>parsed\<close>.\<close>

definition build_result :: "string \<Rightarrow> json \<Rightarrow> js_error + ProbeResult" where
  "build_result path parsed =
     (if parsed = JNull then
        Inl (TypeError ''Cannot read properties of null (reading 'streams')'')
      else
        (case scan_streams (streams_of parsed) 0 [] of
           Inl e \<Rightarrow> Inl e
         | Inr tracks \<Rightarrow>
             (let format = get_prop parsed ''format''
              in case numeric_field (opt_prop format ''duration'') of
                   Inl e \<Rightarrow> Inl e
                 | Inr d \<Rightarrow>
                     Inr \<lparr>probe_filePath = path,
                          probe_duration = d,
                          formatName = opt_prop format ''format_name'',
                          formatLongName = opt_prop format ''format_long_name'',
                          audioTracks = tracks\<rparr>)))"

text \<open>
  The shape of a parsed value on which the \<open>try\<close> block throws nothing: the value and the
  entries of \<open>streams\<close> are not \<open>null\<close>, and the conversions to a number of the fields
  \<open>sample_rate\<close> and \<open>bit_rate\<close> of the audio streams and of \<open>format.duration\<close> do not throw.
\<close>

definition field_throws :: "json option \<Rightarrow> bool" where
  "field_throws v = (case v of None \<Rightarrow> False | Some j \<Rightarrow> to_string_throws j)"

definition stream_ok :: "json \<Rightarrow> bool" where
  "stream_ok stream =
     (stream \<noteq> JNull \<and>
      (is_audio stream \<longrightarrow>
         \<not> field_throws (get_prop stream ''sample_rate'') \<and>
         \<not> field_throws (get_prop stream ''bit_rate'')))"

definition shape_ok :: "json \<Rightarrow> bool" where
  "shape_ok parsed =
     (parsed \<noteq> JNull \<and>
      list_all stream_ok (streams_of parsed) \<and>
      \<not> field_throws (opt_prop (get_prop parsed ''format'') ''duration''))"

subsection \<open>Printing numbers in template literals\<close>

text \<open>The character of a digit below ten.\<close>

definition digit_char :: "nat \<Rightarrow> char" where
  "digit_char n = ''0123456789'' ! n"

fun nat_text :: "nat \<Rightarrow> string" where
  "nat_text n = (if n < 10 then [digit_char n] else nat_text (n div 10) @ [digit_char (n mod 10)])"

declare nat_text.simps [simp del]

definition int_text :: "int \<Rightarrow> string" where
  "int_text i = (if i < 0 then CHR ''-'' # nat_text (nat (- i)) else nat_text (nat i))"

text \<open>An exit code is \<open>null\<close> when the process was ended by a signal.\<close>

definition code_text :: "int option \<Rightarrow> string" where
  "code_text code = (case code of None \<Rightarrow> ''null'' | Some c \<Rightarrow> int_text c)"

subsection \<open>The end of the prober process\<close>

text \<open>
  How a child process ends for the promise that waits for it: the \<open>error\<close> event of a
  process that could not be started, or the \<open>close\<close> event with the exit code.
\<close>

datatype child_end = SpawnFailed string | Closed "int option"

text \<open>
  The handlers of the \<open>close\<close> and \<open>error\<close> events in \<open>runFfprobe\<close>: what the promise
  settles to. \<open>parsed\<close> is the outcome of
  \<open>JSON.parse(output)\<close> on the collected standard output: the message of the SyntaxError,
  or the value. \<open>errorOutput\<close> is the collected diagnostic output.
\<close>

definition runFfprobe_close :: "string \<Rightarrow> child_end \<Rightarrow> string + json \<Rightarrow> string \<Rightarrow> js_error + ProbeResult" where
  "runFfprobe_close path ending parsed errorOutput =
     (case ending of
        SpawnFailed m \<Rightarrow> Inl (SystemError m)
      | Closed code \<Rightarrow>
          if code \<noteq> Some 0 then
            Inl (Error (''ffprobe exited with code '' @ code_text code @ ''. '' @ trim errorOutput))
          else
            (case parsed of
               Inl m \<Rightarrow> Inl (SyntaxError m)
             | Inr v \<Rightarrow> build_result path v))"

section \<open>The main process\<close>

datatype log_level = info | error

record LogEvent =
  level :: log_level
  message :: string

text \<open>
  The calls that leave the main process, in the order they are made: a message to the
  renderer, a recursive forced removal, the creation of a temp directory with a prefix, the
  start of a child process, and the reply to an \<open>extract-track\<close> call.
\<close>

datatype effect =
    Send_log LogEvent
  | Send_progress ExtractProgressEvent
  | Fs_rm string
  | Fs_mkdtemp string
  | Spawn string "string list"
  | Reply_extract "js_error + ExtractTrackResponse"

text \<open>A running encoder process with the variables of its closure.\<close>

record child =
  child_request :: ExtractTrackRequest
  child_outputPath :: string
  child_stderr :: string
  child_buffer :: js_string

record app_state =
  tempDir :: "string option"
  mainWindow :: bool
  children :: "(nat \<times> child) list"
  next_pid :: nat
  trace :: "effect list"

text \<open>What the process reads from its surroundings.\<close>

record environment =
  tmpdir :: string
  ffmpegStatic :: "string option"
  ffprobeStatic :: "string option"

definition emit :: "effect \<Rightarrow> app_state \<Rightarrow> app_state" where
  "emit e st = st\<lparr>trace := trace st @ [e]\<rparr>"

definition logToRenderer :: "LogEvent \<Rightarrow> app_state \<Rightarrow> app_state" where
  "logToRenderer event st = (if mainWindow st then emit (Send_log event) st else st)"

definition resolveBinary :: "string option \<Rightarrow> string \<Rightarrow> string" where
  "resolveBinary candidate fallbackName =
     (case candidate of
        None \<Rightarrow> fallbackName
      | Some c \<Rightarrow> if length c > 0 then c else fallbackName)"

definition getFfprobePath :: "environment \<Rightarrow> string" where
  "getFfprobePath env = resolveBinary (ffprobeStatic env) ''ffprobe''"

definition getFfmpegPath :: "environment \<Rightarrow> string" where
  "getFfmpegPath env = resolveBinary (ffmpegStatic env) ''ffmpeg''"

text \<open>
  \<open>path.join(dir, name)\<close> for a directory path that does not end in a separator and a
  name without one, with the separator \<open>/\<close>.
\<close>

definition path_join :: "string \<Rightarrow> string \<Rightarrow> string" where
  "path_join dir name = dir @ ''/'' @ name"

text \<open>
  \<open>ensureTempDir\<close>. \<open>mk\<close> is what \<open>fs.mkdtemp\<close> gives if it is called: the characters it
  appends to the prefix to name the directory it creates, or the error it rejects with.
  A \<open>tempDir\<close> that is \<open>null\<close> or empty is falsy.
\<close>

definition ensureTempDir ::
  "environment \<Rightarrow> js_error + string \<Rightarrow> app_state \<Rightarrow> (js_error + string) \<times> app_state"
where
  "ensureTempDir env mk st =
     (let base = path_join (tmpdir env) ''audio-track-selector-'';
          st1 = emit (Fs_mkdtemp base) st;
          made = (case mk of
                    Inl e \<Rightarrow> (Inl e, st1)
                  | Inr suffix \<Rightarrow> (Inr (base @ suffix), st1\<lparr>tempDir := Some (base @ suffix)\<rparr>))
      in case tempDir st of
           None \<Rightarrow> made
         | Some d \<Rightarrow> if d = [] then made else (Inr d, st))"

text \<open>
  \<open>cleanupTempDir\<close>. \<open>rm\<close> is what \<open>fs.rm\<close> gives if it is called: \<open>None\<close> when it
  resolves, the error when it rejects. The first component is how the function ends.
\<close>

definition cleanupTempDir :: "js_error option \<Rightarrow> app_state \<Rightarrow> (js_error + unit) \<times> app_state" where
  "cleanupTempDir rm st =
     (case tempDir st of
        None \<Rightarrow> (Inr (), st)
      | Some d \<Rightarrow>
          if d = [] then (Inr (), st)
          else
            (let st1 = emit (Fs_rm d) st;
                 st2 = (case rm of
                          None \<Rightarrow> st1
                        | Some e \<Rightarrow>
                            logToRenderer
                              \<lparr>level = error,
                               message = ''Failed to clean temp directory: '' @ error_message e\<rparr> st1)
             in (Inr (), st2\<lparr>tempDir := None\<rparr>)))"

definition ffprobe_args :: "string \<Rightarrow> string list" where
  "ffprobe_args path =
     [''-v'', ''error'', ''-print_format'', ''json'', ''-show_streams'', ''-show_format'', path]"

text \<open>\<open>runFfprobe\<close>: the log line, the start of the prober and the outcome of the promise.\<close>

definition runFfprobe ::
  "environment \<Rightarrow> string \<Rightarrow> child_end \<Rightarrow> string + json \<Rightarrow> string \<Rightarrow> app_state
    \<Rightarrow> (js_error + ProbeResult) \<times> app_state"
where
  "runFfprobe env path ending parsed errorOutput st =
     (let ffprobePath = getFfprobePath env;
          st1 = logToRenderer \<lparr>level = info, message = ''Running ffprobe: '' @ ffprobePath\<rparr> st;
          st2 = emit (Spawn ffprobePath (ffprobe_args path)) st1
      in (runFfprobe_close path ending parsed errorOutput, st2))"

definition ffmpeg_args :: "ExtractTrackRequest \<Rightarrow> string \<Rightarrow> string list" where
  "ffmpeg_args request out =
     [''-y'',
      ''-i'',
      filePath request,
      ''-map'',
      ''0:a:'' @ int_text (audioIndex request),
      ''-vn'',
      ''-ac'',
      ''2'',
      ''-ar'',
      ''48000'',
      ''-c:a'',
      ''pcm_s16le'',
      ''-progress'',
      ''pipe:1'',
      ''-nostats'',
      out]"

text \<open>
  \<open>runFfmpegExtraction\<close> up to the start of the encoder: the temp directory, the output
  path, the log line and the new child process with an empty buffer. The result is the
  handle of the child.
\<close>

definition runFfmpegExtraction ::
  "environment \<Rightarrow> js_error + string \<Rightarrow> ExtractTrackRequest \<Rightarrow> app_state
    \<Rightarrow> (js_error + nat) \<times> app_state"
where
  "runFfmpegExtraction env mk request st =
     (let ffmpegPath = getFfmpegPath env
      in case ensureTempDir env mk st of
           (Inl e, st1) \<Rightarrow> (Inl e, st1)
         | (Inr outputDir, st1) \<Rightarrow>
             (let out = path_join outputDir (''track_'' @ int_text (audioIndex request) @ ''.wav'');
                  st2 = logToRenderer
                          \<lparr>level = info,
                           message = ''Extracting audio index '' @ int_text (audioIndex request)
                                      @ '' to '' @ out\<rparr> st1;
                  st3 = emit (Spawn ffmpegPath (ffmpeg_args request out)) st2;
                  pid = next_pid st3;
                  c = \<lparr>child_request = request, child_outputPath = out,
                       child_stderr = [], child_buffer = []\<rparr>
              in (Inr pid, st3\<lparr>children := children st3 @ [(pid, c)], next_pid := pid + 1\<rparr>)))"

text \<open>
  The handlers of the \<open>close\<close> and \<open>error\<close> events in \<open>runFfmpegExtraction\<close>: what the
  promise settles to.
\<close>

definition runFfmpegExtraction_close :: "child \<Rightarrow> child_end \<Rightarrow> js_error + ExtractTrackResponse" where
  "runFfmpegExtraction_close c ending =
     (case ending of
        SpawnFailed m \<Rightarrow> Inl (SystemError m)
      | Closed code \<Rightarrow>
          if code \<noteq> Some 0 then
            Inl (Error (''ffmpeg exited with code '' @ code_text code @ ''. '' @ trim (child_stderr c)))
          else
            Inr \<lparr>res_audioIndex = audioIndex (child_request c), outputPath = child_outputPath c\<rparr>)"

subsection \<open>The handlers\<close>

record OpenDialogResult =
  canceled :: bool
  filePaths :: "string list"

text \<open>The handler of \<open>open-file\<close>; \<open>None\<close> is \<open>null\<close>.\<close>

definition open_file :: "OpenDialogResult \<Rightarrow> string option" where
  "open_file result =
     (if canceled result \<or> length (filePaths result) = 0 then None
      else Some (filePaths result ! 0))"

text \<open>The handler of \<open>probe-file\<close>.\<close>

definition probe_file ::
  "environment \<Rightarrow> string \<Rightarrow> js_error option \<Rightarrow> child_end \<Rightarrow> string + json \<Rightarrow> string \<Rightarrow> app_state
    \<Rightarrow> (js_error + ProbeResult) \<times> app_state"
where
  "probe_file env path rm ending parsed errorOutput st =
     (case cleanupTempDir rm st of
        (Inl e, st1) \<Rightarrow> (Inl e, st1)
      | (Inr _, st1) \<Rightarrow>
          (case runFfprobe env path ending parsed errorOutput st1 of
             (Inl e, st2) \<Rightarrow>
               (Inl e, logToRenderer
                         \<lparr>level = error, message = ''Probe failed: '' @ error_message e\<rparr> st2)
           | (Inr r, st2) \<Rightarrow> (Inr r, st2)))"

text \<open>
  The handler of \<open>extract-track\<close> up to the point where it waits for the encoder. When the
  start fails, the error is logged and thrown again.
\<close>

definition extract_track ::
  "environment \<Rightarrow> js_error + string \<Rightarrow> ExtractTrackRequest \<Rightarrow> app_state \<Rightarrow> app_state"
where
  "extract_track env mk request st =
     (case runFfmpegExtraction env mk request st of
        (Inl e, st1) \<Rightarrow>
          emit (Reply_extract (Inl e))
            (logToRenderer
               \<lparr>level = error, message = ''Extraction failed: '' @ error_message e\<rparr> st1)
      | (Inr pid, st1) \<Rightarrow> st1)"

definition update_child :: "nat \<Rightarrow> (child \<Rightarrow> child) \<Rightarrow> app_state \<Rightarrow> app_state" where
  "update_child pid f st =
     st\<lparr>children := map (\<lambda>(p, c). if p = pid then (p, f c) else (p, c)) (children st)\<rparr>"

text \<open>A chunk on the standard output of a child.\<close>

definition child_stdout :: "nat \<Rightarrow> string \<Rightarrow> app_state \<Rightarrow> app_state" where
  "child_stdout pid data st =
     (case map_of (children st) pid of
        None \<Rightarrow> st
      | Some c \<Rightarrow>
          (case stdout_data (child_request c) (mainWindow st) (child_buffer c) data of
             (buffer', ls, es) \<Rightarrow>
               update_child pid (\<lambda>c. c\<lparr>child_buffer := buffer'\<rparr>)
                 (st\<lparr>trace := trace st @ map Send_progress es\<rparr>)))"

text \<open>A chunk on the diagnostic output of a child; \<open>data\<close> is its text.\<close>

definition child_stderr_data :: "nat \<Rightarrow> string \<Rightarrow> app_state \<Rightarrow> app_state" where
  "child_stderr_data pid data st =
     update_child pid (\<lambda>c. c\<lparr>child_stderr := child_stderr c @ data\<rparr>) st"

text \<open>
  The end of a child: the promise settles, the handler of \<open>extract-track\<close> logs a failure and
  replies, and the process is no longer running.
\<close>

definition child_ended :: "nat \<Rightarrow> child_end \<Rightarrow> app_state \<Rightarrow> app_state" where
  "child_ended pid ending st =
     (case map_of (children st) pid of
        None \<Rightarrow> st
      | Some c \<Rightarrow>
          (let st1 = st\<lparr>children := filter (\<lambda>(p, c). p \<noteq> pid) (children st)\<rparr>
           in case runFfmpegExtraction_close c ending of
                Inl e \<Rightarrow>
                  emit (Reply_extract (Inl e))
                    (logToRenderer
                       \<lparr>level = error, message = ''Extraction failed: '' @ error_message e\<rparr> st1)
              | Inr r \<Rightarrow> emit (Reply_extract (Inr r)) st1))"

text \<open>
  What can happen to the main process once the window exists: a call from the renderer with
  the outcomes of the system calls it makes, an event of a child process, or the shutdown.
\<close>

datatype event =
    Probe_file string "js_error option" child_end "string + json" string
  | Extract_track ExtractTrackRequest "js_error + string"
  | Child_stdout nat string
  | Child_stderr nat string
  | Child_end nat child_end
  | Cleanup_temp "js_error option"
  | Before_quit "js_error option"

fun step :: "environment \<Rightarrow> app_state \<Rightarrow> event \<Rightarrow> app_state" where
  "step env st (Probe_file path rm ending parsed errorOutput) =
     snd (probe_file env path rm ending parsed errorOutput st)"
| "step env st (Extract_track request mk) = extract_track env mk request st"
| "step env st (Child_stdout pid data) = child_stdout pid data st"
| "step env st (Child_stderr pid data) = child_stderr_data pid data st"
| "step env st (Child_end pid ending) = child_ended pid ending st"
| "step env st (Cleanup_temp rm) = snd (cleanupTempDir rm st)"
| "step env st (Before_quit rm) = snd (cleanupTempDir rm st)"

definition run :: "environment \<Rightarrow> app_state \<Rightarrow> event list \<Rightarrow> app_state" where
  "run env st evs = foldl (step env) st evs"

text \<open>The state once the window has been created.\<close>

definition ready_state :: app_state where
  "ready_state = \<lparr>tempDir = None, mainWindow = True, children = [], next_pid = 0, trace = []\<rparr>"

text \<open>The encoder processes that are running for an audio index.\<close>

definition in_flight :: "int \<Rightarrow> app_state \<Rightarrow> (nat \<times> child) list" where
  "in_flight i st = filter (\<lambda>(p, c). audioIndex (child_request c) = i) (children st)"

text \<open>The number of encoder processes started so far with \<open>-map 0:a:i\<close>.\<close>

definition is_spawn_for :: "int \<Rightarrow> effect \<Rightarrow> bool" where
  "is_spawn_for i e =
     (case e of
        Spawn bin args \<Rightarrow> take 2 (drop 3 args) = [''-map'', ''0:a:'' @ int_text i]
      | _ \<Rightarrow> False)"

definition spawned_for :: "int \<Rightarrow> app_state \<Rightarrow> nat" where
  "spawned_for i st = length (filter (is_spawn_for i) (trace st))"

section \<open>The renderer\<close>

text \<open>
  The state of the \<open>App\<close> component that the handlers below read or write: the status, the
  path of the opened file, the result of the probe, the tracks, and the audio indices that
  have an audio node. The state that only serves the display and the playback (URL, log
  lines, times, rate) is left out, as are the calls on audio and video elements.
\<close>

datatype AppStatus = Status_Ready | Status_Probing | Status_Extracting | Status_Error

record TrackState =
  track_info :: AudioTrackInfo
  enabled :: bool
  muted :: bool
  volume :: number
  extracting :: bool
  track_progress :: number
  track_error :: "string option"
  track_outputPath :: "string option"

record renderer_state =
  status :: AppStatus
  opened_filePath :: "string option"
  probeResult :: "ProbeResult option"
  tracks :: "TrackState list"
  audioNodes :: "int list"

definition initial_renderer :: renderer_state where
  "initial_renderer =
     \<lparr>status = Status_Ready, opened_filePath = None, probeResult = None, tracks = [],
      audioNodes = []\<rparr>"

text \<open>
  \<open>setTracks((prev) => prev.map((track) => track.info.audioIndex === i ? f(track) : track))\<close>.
\<close>

definition set_track :: "int \<Rightarrow> (TrackState \<Rightarrow> TrackState) \<Rightarrow> renderer_state \<Rightarrow> renderer_state" where
  "set_track i f r =
     r\<lparr>tracks := map (\<lambda>t. if track_audioIndex (track_info t) = i then f t else t) (tracks r)\<rparr>"

text \<open>
  \<open>handleOpenFile\<close>. \<open>selected\<close> is what \<open>openFile\<close> returned and \<open>probed\<close> what
  \<open>probeFile\<close> settles to if it is called.
\<close>

definition handleOpenFile ::
  "string option \<Rightarrow> js_error + ProbeResult \<Rightarrow> renderer_state \<Rightarrow> renderer_state"
where
  "handleOpenFile selected probed r =
     (case selected of
        None \<Rightarrow> r
      | Some path \<Rightarrow>
          if path = [] then r
          else
            (let r1 = r\<lparr>status := Status_Probing, opened_filePath := Some path,
                       probeResult := None, tracks := [], audioNodes := []\<rparr>
             in case probed of
                  Inl e \<Rightarrow> r1\<lparr>status := Status_Error\<rparr>
                | Inr result \<Rightarrow>
                    r1\<lparr>probeResult := Some result,
                       tracks := map (\<lambda>track.
                                   \<lparr>track_info = track, enabled = False, muted = False,
                                    volume = Fin 100, extracting = False,
                                    track_progress = Fin 0, track_error = None,
                                    track_outputPath = None\<rparr>) (audioTracks result),
                       status := Status_Ready\<rparr>))"

text \<open>
  The end of \<open>handleEnableTrack\<close> once an output path is known: the audio node of the track
  is created unless it exists.
\<close>

definition attach_node :: "int \<Rightarrow> string \<Rightarrow> renderer_state \<Rightarrow> renderer_state" where
  "attach_node i out r =
     (if out = [] then r
      else if i \<in> set (audioNodes r) then r
      else r\<lparr>audioNodes := audioNodes r @ [i]\<rparr>)"

text \<open>
  \<open>handleEnableTrack\<close> up to the point where it waits for \<open>extractTrack\<close>. \<open>tracks\<close>,
  \<open>filePath\<close> and \<open>probeResult\<close> are those of the state the handler was rendered with. The
  result is the new state and the request that is sent, if one is.
\<close>

definition handleEnableTrack ::
  "int \<Rightarrow> bool \<Rightarrow> renderer_state \<Rightarrow> renderer_state \<times> ExtractTrackRequest option"
where
  "handleEnableTrack i en r =
     (let r1 = set_track i (\<lambda>t. t\<lparr>enabled := en, track_error := None\<rparr>) r
      in if \<not> en then (r1, None)
         else
           (case find (\<lambda>t. track_audioIndex (track_info t) = i) (tracks r) of
              None \<Rightarrow> (r1, None)
            | Some target \<Rightarrow>
                (case opened_filePath r of
                   None \<Rightarrow> (r1, None)
                 | Some path \<Rightarrow>
                     if path = [] then (r1, None)
                     else if track_outputPath target = None \<or> track_outputPath target = Some [] then
                       ((set_track i (\<lambda>t. t\<lparr>extracting := True, track_progress := Fin 0\<rparr>) r1)
                          \<lparr>status := Status_Extracting\<rparr>,
                        Some \<lparr>filePath = path, audioIndex = i,
                              duration = (case probeResult r of
                                            None \<Rightarrow> None
                                          | Some p \<Rightarrow> probe_duration p)\<rparr>)
                     else
                       (case track_outputPath target of
                          None \<Rightarrow> (r1, None)
                        | Some out \<Rightarrow> (attach_node i out r1, None)))))"

text \<open>\<open>handleEnableTrack\<close> after \<open>extractTrack\<close> has resolved.\<close>

definition handleEnableTrack_resolved ::
  "int \<Rightarrow> ExtractTrackResponse \<Rightarrow> renderer_state \<Rightarrow> renderer_state"
where
  "handleEnableTrack_resolved i response r =
     attach_node i (outputPath response)
       ((set_track i
           (\<lambda>t. t\<lparr>extracting := False, track_progress := Fin 1,
                   track_outputPath := Some (outputPath response)\<rparr>) r)
          \<lparr>status := Status_Ready\<rparr>)"

text \<open>
  \<open>handleEnableTrack\<close> after \<open>extractTrack\<close> has rejected with an error that has the
  message \<open>m\<close>.
\<close>

definition handleEnableTrack_rejected :: "int \<Rightarrow> string \<Rightarrow> renderer_state \<Rightarrow> renderer_state" where
  "handleEnableTrack_rejected i m r =
     (set_track i (\<lambda>t. t\<lparr>extracting := False, track_error := Some m\<rparr>) r)
       \<lparr>status := Status_Error\<rparr>"

text \<open>The listener of \<open>extract-progress\<close>.\<close>

definition onExtractProgress :: "ExtractProgressEvent \<Rightarrow> renderer_state \<Rightarrow> renderer_state" where
  "onExtractProgress ev r = set_track (ev_audioIndex ev) (\<lambda>t. t\<lparr>track_progress := progress ev\<rparr>) r"

section \<open>The two processes together\<close>

text \<open>
  The main process, the renderer, and the calls of \<open>handleEnableTrack\<close> that wait for an
  encoder, each with the handle of the encoder and its audio index.
\<close>

record system =
  main_state :: app_state
  renderer :: renderer_state
  waiting :: "(nat \<times> int) list"

text \<open>
  The message of the error that \<open>invoke\<close> rejects with in the renderer when the handler of
  the channel threw \<open>e\<close>.
\<close>

fun error_name :: "js_error \<Rightarrow> string" where
  "error_name (Error m) = ''Error''"
| "error_name (SyntaxError m) = ''SyntaxError''"
| "error_name (TypeError m) = ''TypeError''"
| "error_name (SystemError m) = ''Error''"

definition remote_message :: "string \<Rightarrow> js_error \<Rightarrow> string" where
  "remote_message channel e =
     ''Error invoking remote method '' @ [CHR 0x27] @ channel @ [CHR 0x27] @ '': ''
       @ error_name e @ '': '' @ error_message e"

text \<open>
  What happens to the two processes: the user opens a file or sets the checkbox of a track,
  or an encoder prints or ends. An action carries the outcomes of the system calls made.
\<close>

datatype action =
    Open_file OpenDialogResult "js_error option" child_end "string + json" string
  | Enable int bool "js_error + string"
  | Stdout nat string
  | Stderr nat string
  | Ended nat child_end

fun act :: "environment \<Rightarrow> system \<Rightarrow> action \<Rightarrow> system" where
  "act env s (Open_file dialog rm ending parsed errorOutput) =
     (case open_file dialog of
        None \<Rightarrow> s
      | Some path \<Rightarrow>
          if path = [] then s
          else
            (case probe_file env path rm ending parsed errorOutput (main_state s) of
               (probed, m1) \<Rightarrow>
                 s\<lparr>main_state := m1, renderer := handleOpenFile (Some path) probed (renderer s)\<rparr>))"
| "act env s (Enable i en mk) =
     (case handleEnableTrack i en (renderer s) of
        (r1, None) \<Rightarrow> s\<lparr>renderer := r1\<rparr>
      | (r1, Some request) \<Rightarrow>
          (case fst (runFfmpegExtraction env mk request (main_state s)) of
             Inl e \<Rightarrow>
               s\<lparr>main_state := extract_track env mk request (main_state s),
                  renderer := handleEnableTrack_rejected i (remote_message ''extract-track'' e) r1\<rparr>
           | Inr pid \<Rightarrow>
               s\<lparr>main_state := extract_track env mk request (main_state s),
                  renderer := r1,
                  waiting := waiting s @ [(pid, i)]\<rparr>))"
| "act env s (Stdout pid data) =
     (case map_of (children (main_state s)) pid of
        None \<Rightarrow> s
      | Some c \<Rightarrow>
          s\<lparr>main_state := child_stdout pid data (main_state s),
             renderer := foldl (\<lambda>r ev. onExtractProgress ev r) (renderer s)
                           (snd (snd (stdout_data (child_request c) (mainWindow (main_state s))
                                        (child_buffer c) data)))\<rparr>)"
| "act env s (Stderr pid data) = s\<lparr>main_state := child_stderr_data pid data (main_state s)\<rparr>"
| "act env s (Ended pid ending) =
     (case map_of (children (main_state s)) pid of
        None \<Rightarrow> s
      | Some c \<Rightarrow>
          s\<lparr>main_state := child_ended pid ending (main_state s),
             renderer :=
               (case map_of (waiting s) pid of
                  None \<Rightarrow> renderer s
                | Some i \<Rightarrow>
                    (case runFfmpegExtraction_close c ending of
                       Inl e \<Rightarrow>
                         handleEnableTrack_rejected i (remote_message ''extract-track'' e) (renderer s)
                     | Inr response \<Rightarrow> handleEnableTrack_resolved i response (renderer s))),
             waiting := filter (\<lambda>(p, i). p \<noteq> pid) (waiting s)\<rparr>)"

definition acts :: "environment \<Rightarrow> system \<Rightarrow> action list \<Rightarrow> system" where
  "acts env s as = foldl (act env) s as"

text \<open>The two processes once the window has been created.\<close>

definition ready_system :: system where
  "ready_system = \<lparr>main_state = ready_state, renderer = initial_renderer, waiting = []\<rparr>"

section \<open>Example inputs\<close>

text \<open>
  A request with a total duration of ten seconds, and two outputs of the encoder; the chunks
  are bytes.
\<close>

definition example_request :: ExtractTrackRequest where
  "example_request = \<lparr>filePath = ''movie.mkv'', audioIndex = 0, duration = Some (Fin 10)\<rparr>"

definition example_chunks :: "string list" where
  "example_chunks = [''out_time_ms=2500000'' @ [LF] @ ''out_ti'', ''me_ms=5000000'' @ [CR, LF]]"

definition falling_chunks :: "string list" where
  "falling_chunks = [''out_time_ms=5000000'' @ [LF] @ ''out_time_ms=-2500000'' @ [LF]]"

text \<open>
  An output of the encoder whose elapsed time is followed by a no-break space (the bytes
  \<open>C2 A0\<close>), in one chunk and cut between the two bytes.
\<close>

definition whole_chunk :: "string list" where
  "whole_chunk = [''out_time_ms=5000000'' @ [CHR 0xC2, CHR 0xA0, LF]]"

definition cut_chunks :: "string list" where
  "cut_chunks = [''out_time_ms=5000000'' @ [CHR 0xC2], [CHR 0xA0, LF]]"


text \<open>
  A parsed prober output with a video stream, a subtitle stream and three audio streams whose
  native indices are 2, 5 and 7.
\<close>

definition example_probe :: json where
  "example_probe =
     JObj [(''streams'', JArr
             [JObj [(''index'', JNum (Fin 0)), (''codec_type'', JStr ''video'')],
              JObj [(''index'', JNum (Fin 2)), (''codec_type'', JStr ''audio''),
                    (''sample_rate'', JStr ''48000'')],
              JObj [(''index'', JNum (Fin 3)), (''codec_type'', JStr ''subtitle'')],
              JObj [(''index'', JNum (Fin 5)), (''codec_type'', JStr ''audio'')],
              JObj [(''index'', JNum (Fin 7)), (''codec_type'', JStr ''audio''),
                    (''bit_rate'', JStr ''128000'')]]),
           (''format'', JObj [(''duration'', JStr ''12.5'')])]"

text \<open>
  A parsed prober output whose numeric fields are present and are not numbers: the text
  \<open>N/A\<close>, the value \<open>true\<close> and a blank text.
\<close>

definition odd_probe :: json where
  "odd_probe =
     JObj [(''streams'', JArr
             [JObj [(''index'', JNum (Fin 1)), (''codec_type'', JStr ''audio''),
                    (''sample_rate'', JStr ''N/A''), (''bit_rate'', JBool True)]]),
           (''format'', JObj [(''duration'', JStr '' '')])]"

text \<open>A line of diagnostic output.\<close>

definition example_diagnostic :: string where
  "example_diagnostic = ''movie.mkv: Invalid data found when processing input'' @ [LF]"

text \<open>
  Surroundings without bundled binaries, and the characters that \<open>fs.mkdtemp\<close> appends in
  the examples with the directory they name.
\<close>

definition example_env :: environment where
  "example_env = \<lparr>tmpdir = ''/tmp'', ffmpegStatic = None, ffprobeStatic = None\<rparr>"

definition example_suffix :: string where
  "example_suffix = ''Ab12Cd''"

definition example_dir :: string where
  "example_dir = ''/tmp/audio-track-selector-Ab12Cd''"

text \<open>An output of the encoder that reports no elapsed time yet.\<close>

definition unknown_time_chunks :: "string list" where
  "unknown_time_chunks = [''out_time_ms=N/A'' @ [LF]]"

text \<open>A request whose total duration is infinite, and an output that reports the same.\<close>

definition endless_request :: ExtractTrackRequest where
  "endless_request = \<lparr>filePath = ''movie.mkv'', audioIndex = 0, duration = Some Infinity\<rparr>"

definition endless_chunks :: "string list" where
  "endless_chunks = [''out_time_ms=Infinity'' @ [LF]]"

text \<open>The dialog result of the examples, and the two processes after the file was opened.\<close>

definition example_dialog :: OpenDialogResult where
  "example_dialog = \<lparr>canceled = False, filePaths = [''movie.mkv'']\<rparr>"

definition opened_system :: system where
  "opened_system =
     act example_env ready_system
       (Open_file example_dialog None (Closed (Some 0)) (Inr example_probe) [])"

text \<open>
  The user ticks the box of track 0; ticks it, clears it and ticks it again while the first
  encoder is running; and ticks it, clears it and ticks it again after the first encoder
  has exited with code 0.
\<close>

definition enable_once :: "action list" where
  "enable_once = [Enable 0 True (Inr example_suffix)]"

definition enable_twice_while_extracting :: "action list" where
  "enable_twice_while_extracting =
     [Enable 0 True (Inr example_suffix), Enable 0 False (Inr example_suffix),
      Enable 0 True (Inr example_suffix)]"

definition enable_twice_after_success :: "action list" where
  "enable_twice_after_success =
     [Enable 0 True (Inr example_suffix), Ended 0 (Closed (Some 0)),
      Enable 0 False (Inr example_suffix), Enable 0 True (Inr example_suffix)]"

section \<open>Properties\<close>

subsection \<open>Rounding to binary64\<close>

lemma rhe_int: "rhe (of_int n) = n"
  by (simp add: rhe_def Let_def)

lemma rhe_mono: "r \<le> s \<Longrightarrow> rhe r \<le> rhe s"
proof -
  assume rs: "r \<le> s"
  have lo: "\<lfloor>t\<rfloor> \<le> rhe t" and hi: "rhe t \<le> \<lfloor>t\<rfloor> + 1" for t :: rat
    by (simp_all add: rhe_def Let_def)
  have fl: "\<lfloor>r\<rfloor> \<le> \<lfloor>s\<rfloor>" using rs by (rule floor_mono)
  show ?thesis
  proof (cases "\<lfloor>r\<rfloor> = \<lfloor>s\<rfloor>")
    case True
    with rs show ?thesis by (auto simp: rhe_def Let_def)
  next
    case False
    with fl have "\<lfloor>r\<rfloor> + 1 \<le> \<lfloor>s\<rfloor>" by simp
    with hi[of r] lo[of s] show ?thesis by linarith
  qed
qed

lemma bitlen_rat_bounds:
  assumes "0 < (p::int)"
  shows "(2::rat) powi (bitlen p - 1) \<le> of_int p" and "of_int p < (2::rat) powi bitlen p"
proof -
  from bitlen_bounds[OF assms] have a: "2 ^ nat (bitlen p - 1) \<le> p" and b: "p < 2 ^ nat (bitlen p)"
    by auto
  have n: "0 \<le> bitlen p - 1" using assms bitlen_nonneg[of p] bitlen_eq_zero_iff[of p]
    by (cases "bitlen p = 0") auto
  have "(2::rat) powi (bitlen p - 1) = 2 ^ nat (bitlen p - 1)" using n by (simp add: power_int_def)
  also have "\<dots> = of_int (2 ^ nat (bitlen p - 1))" by simp
  also have "\<dots> \<le> of_int p" using a by (simp only: of_int_le_iff)
  finally show "(2::rat) powi (bitlen p - 1) \<le> of_int p" .
  have "(of_int p :: rat) < of_int (2 ^ nat (bitlen p))" using b by (simp only: of_int_less_iff)
  also have "\<dots> = 2 powi bitlen p" using bitlen_nonneg[of p] by (simp add: power_int_def)
  finally show "of_int p < (2::rat) powi bitlen p" .
qed

lemma exponent_bounds:
  assumes "0 < x"
  shows "2 powi exponent x \<le> x" and "x < 2 powi (exponent x + 1)"
proof -
  obtain p q where pq: "quotient_of x = (p, q)" by (cases "quotient_of x")
  then have q: "0 < q" and x: "x = of_int p / of_int q"
    using quotient_of_denom_pos quotient_of_div by auto
  with assms have p: "0 < p" by (simp add: zero_less_divide_iff)
  let ?k = "bitlen p - bitlen q"
  note pb = bitlen_rat_bounds[OF p] and qb = bitlen_rat_bounds[OF q]
  have qpos: "(0::rat) < of_int q" using q by simp
  have ppos: "(0::rat) < of_int p" using p by simp
  have p2: "(0::rat) < 2 powi n" for n :: int by simp
  have up: "x < 2 powi (?k + 1)"
  proof -
    have "x < 2 powi bitlen p / of_int q"
      unfolding x using pb(2) qpos by (simp add: divide_strict_right_mono)
    also have "\<dots> \<le> 2 powi bitlen p / 2 powi (bitlen q - 1)"
      using qb(1) p2[of "bitlen q - 1"] p2[of "bitlen p"] qpos
      by (intro divide_left_mono mult_pos_pos) simp_all
    also have "\<dots> = 2 powi (bitlen p - (bitlen q - 1))"
      by (simp add: power_int_diff)
    also have "bitlen p - (bitlen q - 1) = ?k + 1" by simp
    finally show ?thesis .
  qed
  have lo: "2 powi (?k - 1) \<le> x"
  proof -
    have "(2::rat) powi (?k - 1) = 2 powi ((bitlen p - 1) - bitlen q)" by (simp add: algebra_simps)
    also have "\<dots> = 2 powi (bitlen p - 1) / 2 powi bitlen q"
      using power_int_diff[of "2::rat" "bitlen p - 1" "bitlen q"] by simp
    also have "\<dots> \<le> of_int p / of_int q"
      using pb(1) qb(2) qpos ppos by (intro frac_le) simp_all
    finally show ?thesis using x by simp
  qed
  show "2 powi exponent x \<le> x" using pq lo by (simp add: exponent_def Let_def)
  show "x < 2 powi (exponent x + 1)" using pq up by (auto simp: exponent_def Let_def)
qed

lemma exponent_unique:
  assumes "0 < x" and "2 powi e \<le> x" and "x < 2 powi (e + 1)"
  shows "exponent x = e"
proof (rule ccontr)
  assume ne: "exponent x \<noteq> e"
  note b = exponent_bounds[OF assms(1)]
  show False
  proof (cases "exponent x < e")
    case True
    then have "exponent x + 1 \<le> e" by simp
    then have "(2::rat) powi (exponent x + 1) \<le> 2 powi e" by (intro power_int_increasing) simp_all
    with b(2) assms(2) show False by simp
  next
    case False
    with ne have "e + 1 \<le> exponent x" by simp
    then have "(2::rat) powi (e + 1) \<le> 2 powi exponent x" by (intro power_int_increasing) simp_all
    with b(1) assms(3) show False by simp
  qed
qed

lemma exponent_mono:
  assumes "0 < x" and "x \<le> y"
  shows "exponent x \<le> exponent y"
proof (rule ccontr)
  assume "\<not> exponent x \<le> exponent y"
  then have "exponent y + 1 \<le> exponent x" by simp
  then have "(2::rat) powi (exponent y + 1) \<le> 2 powi exponent x" by (intro power_int_increasing) simp_all
  moreover have "0 < y" using assms by simp
  ultimately show False using exponent_bounds(1)[OF assms(1)] exponent_bounds(2)[of y] assms(2) by simp
qed

lemma two_powi_pos: "(0::rat) < 2 powi n"
  by simp

lemma two_powi_le: "m \<le> n \<Longrightarrow> (2::rat) powi m \<le> 2 powi n"
  by (intro power_int_increasing) simp_all

lemma two_powi_split: "(2::rat) powi (m + n) = 2 powi m * 2 powi n"
  by (simp add: power_int_add)

lemma div_two_powi: "(2::rat) powi m / 2 powi n = 2 powi (m - n)"
  by (simp add: power_int_diff)

lemma ulp_exponent_mono:
  assumes "0 < x" and "x \<le> y"
  shows "ulp_exponent x \<le> ulp_exponent y"
  using exponent_mono[OF assms] by (simp add: ulp_exponent_def)

lemma magnitude_upper:
  assumes "0 < x"
  shows "magnitude x \<le> 2 powi (ulp_exponent x + 53)"
proof -
  let ?u = "ulp_exponent x"
  have "x < 2 powi (exponent x + 1)" by (rule exponent_bounds(2)[OF assms])
  also have "\<dots> \<le> 2 powi (?u + 53)" by (rule two_powi_le) (simp add: ulp_exponent_def)
  finally have "x / 2 powi ?u \<le> 2 powi (?u + 53) / 2 powi ?u"
    by (simp add: divide_right_mono)
  also have "\<dots> = 2 powi 53" by (simp add: div_two_powi)
  also have "\<dots> = of_int (2 ^ 53)" by (simp add: power_int_def)
  finally have "rhe (x / 2 powi ?u) \<le> rhe (of_int (2 ^ 53))" by (rule rhe_mono)
  then have "rhe (x / 2 powi ?u) \<le> 2 ^ 53" by (simp only: rhe_int)
  then have "(of_int (rhe (x / 2 powi ?u)) :: rat) \<le> of_int (2 ^ 53)" by (simp only: of_int_le_iff)
  also have "(of_int (2 ^ 53) :: rat) = 2 powi 53" by (simp add: power_int_def)
  finally have "magnitude x \<le> 2 powi 53 * 2 powi ?u"
    unfolding magnitude_def by (intro mult_right_mono) simp_all
  also have "\<dots> = 2 powi (53 + ?u)" by (rule two_powi_split[symmetric])
  also have "\<dots> = 2 powi (?u + 53)" by (simp only: add.commute)
  finally show ?thesis .
qed

lemma magnitude_lower:
  assumes "0 < x" and "2 powi (ulp_exponent x + k) \<le> x" and "0 \<le> k"
  shows "2 powi (ulp_exponent x + k) \<le> magnitude x"
proof -
  let ?u = "ulp_exponent x"
  have "(2::rat) powi k = 2 powi (?u + k) / 2 powi ?u" by (simp add: div_two_powi)
  also have "\<dots> \<le> x / 2 powi ?u" using assms(2) by (simp add: divide_right_mono)
  finally have "(of_int (2 ^ nat k) :: rat) \<le> x / 2 powi ?u"
    using assms(3) by (simp add: power_int_def)
  then have "rhe (of_int (2 ^ nat k)) \<le> rhe (x / 2 powi ?u)" by (rule rhe_mono)
  then have "2 ^ nat k \<le> rhe (x / 2 powi ?u)" by (simp only: rhe_int)
  then have "(of_int (2 ^ nat k) :: rat) \<le> of_int (rhe (x / 2 powi ?u))" by (simp only: of_int_le_iff)
  then have "(2::rat) powi k \<le> of_int (rhe (x / 2 powi ?u))"
    using assms(3) by (simp add: power_int_def)
  then have "2 powi k * 2 powi ?u \<le> magnitude x"
    unfolding magnitude_def by (intro mult_right_mono) simp_all
  then show ?thesis by (simp add: two_powi_split[symmetric] add.commute)
qed

lemma magnitude_mono:
  assumes "0 < x" and "x \<le> y"
  shows "magnitude x \<le> magnitude y"
proof -
  have y: "0 < y" using assms by simp
  note u = ulp_exponent_mono[OF assms]
  show ?thesis
  proof (cases "ulp_exponent x = ulp_exponent y")
    case True
    have "x / 2 powi ulp_exponent y \<le> y / 2 powi ulp_exponent y"
      using assms(2) by (simp add: divide_right_mono)
    then have "rhe (x / 2 powi ulp_exponent y) \<le> rhe (y / 2 powi ulp_exponent y)" by (rule rhe_mono)
    then have "(of_int (rhe (x / 2 powi ulp_exponent y)) :: rat) \<le> of_int (rhe (y / 2 powi ulp_exponent y))"
      by (simp only: of_int_le_iff)
    then show ?thesis unfolding magnitude_def True by (intro mult_right_mono) simp_all
  next
    case False
    with u have lt: "ulp_exponent x < ulp_exponent y" by simp
    then have ey: "ulp_exponent y = exponent y - 52" by (auto simp: ulp_exponent_def max_def split: if_splits)
    have "magnitude x \<le> 2 powi (ulp_exponent x + 53)" by (rule magnitude_upper[OF assms(1)])
    also have "\<dots> \<le> 2 powi (ulp_exponent y + 52)" using lt by (intro two_powi_le) simp
    also have "\<dots> \<le> magnitude y"
    proof (rule magnitude_lower[OF y])
      show "2 powi (ulp_exponent y + 52) \<le> y" using exponent_bounds(1)[OF y] ey by simp
    qed simp
    finally show ?thesis .
  qed
qed

lemma magnitude_nonneg:
  assumes "0 < x"
  shows "0 \<le> magnitude x"
proof -
  have "(of_int 0 :: rat) \<le> x / 2 powi ulp_exponent x" using assms by simp
  then have "rhe (of_int 0) \<le> rhe (x / 2 powi ulp_exponent x)" by (rule rhe_mono)
  then have "0 \<le> rhe (x / 2 powi ulp_exponent x)" by (simp only: rhe_int)
  then show ?thesis unfolding magnitude_def by simp
qed

lemma ulp_exponent_le:
  assumes "0 < x" and "2 powi (- 1074) \<le> x"
  shows "2 powi (ulp_exponent x) \<le> x"
proof (cases "- 1022 \<le> exponent x")
  case True
  then have "ulp_exponent x \<le> exponent x" by (simp add: ulp_exponent_def)
  then have "(2::rat) powi ulp_exponent x \<le> 2 powi exponent x" by (rule two_powi_le)
  with exponent_bounds(1)[OF assms(1)] show ?thesis by simp
next
  case False
  then have "ulp_exponent x = - 1074" by (simp add: ulp_exponent_def)
  with assms(2) show ?thesis by simp
qed

lemma magnitude_pos:
  assumes "0 < x" and "2 powi (- 1074) \<le> x"
  shows "0 < magnitude x"
proof -
  have "2 powi (ulp_exponent x + 0) \<le> magnitude x"
    by (rule magnitude_lower[OF assms(1)]) (simp_all add: ulp_exponent_le[OF assms])
  then show ?thesis by (rule less_le_trans[OF two_powi_pos])
qed

lemma round_pos_cases:
  assumes "0 < x"
  shows "round_pos x = Infinity \<or> (\<exists>r. round_pos x = Fin r \<and> 0 \<le> r)"
  using magnitude_nonneg[OF assms] by (simp add: round_pos_def)

lemma round_pos_mono:
  assumes "0 < x" and "x \<le> y"
  shows "js_le (round_pos x) (round_pos y)"
  using magnitude_mono[OF assms] by (simp add: round_pos_def)

lemma round64_nonneg:
  assumes "0 \<le> x"
  shows "round64 x = Infinity \<or> (\<exists>r. round64 x = Fin r \<and> 0 \<le> r)"
proof (cases "x = 0")
  case True then show ?thesis by (simp add: round64_def)
next
  case False
  with assms have "0 < x" by simp
  with round_pos_cases[OF this] show ?thesis by (simp add: round64_def)
qed

lemma round64_pos:
  assumes "0 < x" and "2 powi (- 1074) \<le> x"
  shows "round64 x = Infinity \<or> (\<exists>r. round64 x = Fin r \<and> 0 < r)"
  using magnitude_pos[OF assms] assms(1) by (simp add: round64_def round_pos_def)

lemma round64_mono:
  assumes "0 \<le> x" and "x \<le> y"
  shows "js_le (round64 x) (round64 y)"
proof (cases "x = 0")
  case True
  have "0 \<le> y" using assms by simp
  from round64_nonneg[OF this] show ?thesis using True by (auto simp: round64_def)
next
  case False
  with assms have x: "0 < x" by simp
  with assms have y: "0 < y" by simp
  from round_pos_mono[OF x assms(2)] x y show ?thesis by (simp add: round64_def)
qed

text \<open>A positive binary64 value is at least the smallest subnormal number.\<close>

lemma representable_lower:
  assumes "0 < d" and "round64 d = Fin d"
  shows "2 powi (- 1074) \<le> d"
proof -
  let ?u = "ulp_exponent d"
  let ?n = "rhe (d / 2 powi ?u)"
  from assms have m: "magnitude d = d"
    by (simp add: round64_def round_pos_def split: if_splits)
  then have d: "d = of_int ?n * 2 powi ?u" by (simp add: magnitude_def)
  have "0 < (of_int ?n :: rat)"
  proof (rule ccontr)
    assume "\<not> 0 < (of_int ?n :: rat)"
    then have "(of_int ?n :: rat) \<le> 0" by simp
    then have "of_int ?n * 2 powi ?u \<le> (0::rat)" by (simp add: mult_le_0_iff)
    with d assms(1) show False by simp
  qed
  then have "1 \<le> ?n" by simp
  then have "(1::rat) \<le> of_int ?n" by (simp only: of_int_1_le_iff)
  then have "1 * 2 powi ?u \<le> of_int ?n * (2::rat) powi ?u" by (intro mult_right_mono) simp_all
  with d have "2 powi ?u \<le> d" by simp
  moreover have "(2::rat) powi (- 1074) \<le> 2 powi ?u"
    by (rule two_powi_le) (simp add: ulp_exponent_def)
  ultimately show ?thesis by simp
qed

lemma round64_exact:
  assumes "0 < x" and "2 powi e \<le> x" and "x < 2 powi (e + 1)" and "- 1022 \<le> e" and "e < 1024"
    and "x = of_int n * 2 powi (e - 52)"
  shows "round64 x = Fin x"
proof -
  have e: "exponent x = e" by (rule exponent_unique[OF assms(1-3)])
  then have u: "ulp_exponent x = e - 52" using assms(4) by (simp add: ulp_exponent_def)
  have "x / 2 powi (e - 52) = of_int n" using assms(6) by simp
  then have m: "magnitude x = x" unfolding magnitude_def u using assms(6) by (simp add: rhe_int)
  have "x < 2 powi 1024" using assms(3) two_powi_le[of "e + 1" 1024] assms(5) by simp
  then show ?thesis using assms(1) m by (simp add: round64_def round_pos_def)
qed

lemma round64_dyadic:
  assumes "0 < i" and "i < 2 ^ 53" and "k \<le> 1022"
  shows "round64 (of_int i / 2 ^ k) = Fin (of_int i / 2 ^ k)"
proof -
  let ?x = "of_int i / 2 ^ k :: rat"
  have x: "0 < ?x" using assms(1) by simp
  let ?e = "exponent ?x"
  note b = exponent_bounds[OF x]
  have xi: "?x = of_int i * 2 powi (- int k)" by (simp add: power_int_def field_simps)
  have i1: "(1::rat) \<le> of_int i" using assms(1) by simp
  have lo: "- int k \<le> ?e"
  proof (rule ccontr)
    assume "\<not> - int k \<le> ?e"
    then have "?e + 1 \<le> - int k" by simp
    then have "(2::rat) powi (?e + 1) \<le> 2 powi (- int k)" by (rule two_powi_le)
    also have "\<dots> = 1 * 2 powi (- int k)" by simp
    also have "\<dots> \<le> of_int i * 2 powi (- int k)" using i1 by (intro mult_right_mono) simp_all
    finally show False using b(2) xi by simp
  qed
  have hi: "?e + int k \<le> 52"
  proof (rule ccontr)
    assume "\<not> ?e + int k \<le> 52"
    then have "53 \<le> ?e + int k" by simp
    then have "(2::rat) powi 53 \<le> 2 powi (?e + int k)" by (rule two_powi_le)
    also have "\<dots> = 2 powi ?e * 2 powi int k" by (rule two_powi_split)
    also have "\<dots> \<le> ?x * 2 powi int k" using b(1) by (intro mult_right_mono) simp_all
    also have "\<dots> = of_int i" by (simp add: power_int_def)
    finally have "(of_int (2 ^ 53) :: rat) \<le> of_int i" by (simp add: power_int_def)
    then have "2 ^ 53 \<le> i" by (simp only: of_int_le_iff)
    with assms(2) show False by simp
  qed
  have n: "?x = of_int (i * 2 ^ nat (52 - ?e - int k)) * 2 powi (?e - 52)"
  proof -
    have "(of_int (i * 2 ^ nat (52 - ?e - int k)) :: rat) = of_int i * 2 powi (52 - ?e - int k)"
      using hi by (simp add: power_int_def)
    then have "of_int (i * 2 ^ nat (52 - ?e - int k)) * 2 powi (?e - 52)
        = of_int i * (2 powi (52 - ?e - int k) * (2::rat) powi (?e - 52))" by simp
    also have "\<dots> = of_int i * 2 powi (- int k)"
      by (simp only: two_powi_split[symmetric]) simp
    finally have r: "of_int (i * 2 ^ nat (52 - ?e - int k)) * 2 powi (?e - 52)
        = of_int i * (2::rat) powi (- int k)" .
    show ?thesis by (rule trans[OF xi r[symmetric]])
  qed
  have e1: "- 1022 \<le> ?e" using lo assms(3) by simp
  have e2: "?e < 1024" using hi by simp
  show ?thesis by (rule round64_exact[OF x b e1 e2 n])
qed

lemma round64_of_nat:
  assumes "n < 2 ^ 53"
  shows "round64 (of_nat n) = Fin (of_nat n)"
proof (cases "n = 0")
  case True then show ?thesis by (simp add: round64_def)
next
  case False
  have "int n < 2 ^ 53" using assms by (metis of_nat_less_numeral_power_cancel_iff)
  from round64_dyadic[of "int n" 0] False this show ?thesis by simp
qed

lemma round64_numeral:
  "(numeral w :: nat) < 2 ^ 53 \<Longrightarrow> round64 (numeral w) = Fin (numeral w)"
  using round64_of_nat[of "numeral w"] by simp

lemma round64_neg:
  assumes "x < 0"
  shows "round64 x = js_neg (round64 (- x))"
  using assms by (simp add: round64_def)

lemma round64_half: "round64 (1 / 2) = Fin (1 / 2)"
  using round64_dyadic[of 1 1] by simp

lemma round64_quarter: "round64 (1 / 4) = Fin (1 / 4)"
  using round64_dyadic[of 1 2] by simp

subsection \<open>Splitting the output of the encoder into lines\<close>

lemma split_lines_nonempty: "split_lines xs \<noteq> []"
  by (induction xs rule: split_lines.induct) (auto split: list.splits simp: neq_Nil_conv elim: push_front.elims)

lemma split_lines_LF: "split_lines (10 # ys) = [] # split_lines ys"
  by (cases ys) simp_all

lemma split_lines_single: "split_lines xs = [l] \<Longrightarrow> l = xs"
proof (induction xs arbitrary: l rule: split_lines.induct)
  case 1 thus ?case by simp
next
  case (2 c) thus ?case by (simp split: if_splits)
next
  case (3 c d rest)
  show ?case
  proof (cases "c = 10 \<or> (c = 13 \<and> d = 10)")
    case True
    with "3.prems" split_lines_nonempty show ?thesis by (auto split: if_splits)
  next
    case False
    with "3.prems" have p: "push_front c (split_lines (d # rest)) = [l]" by auto
    obtain k ks where k: "split_lines (d # rest) = k # ks"
      using split_lines_nonempty by (cases "split_lines (d # rest)") auto
    with p have "ks = []" "l = c # k" by auto
    with k "3.IH"(3) False show ?thesis by auto
  qed
qed

lemma split_lines_append:
  "split_lines (xs @ ys) = butlast (split_lines xs) @ split_lines (last (split_lines xs) @ ys)"
proof (induction xs rule: split_lines.induct)
  case 1 show ?case by simp
next
  case (2 c)
  show ?case by (simp add: split_lines_LF)
next
  case (3 c d rest)
  show ?case
  proof (cases "c = 10")
    case True
    with "3.IH"(1) split_lines_nonempty[of "d # rest"] show ?thesis by simp
  next
    case nlf: False
    show ?thesis
    proof (cases "c = 13 \<and> d = 10")
      case True
      with nlf "3.IH"(2) split_lines_nonempty[of rest] show ?thesis by simp
    next
      case False
      obtain k ks where k: "split_lines (d # rest) = k # ks"
        using split_lines_nonempty by (cases "split_lines (d # rest)") auto
      have lhs: "split_lines ((c # d # rest) @ ys) = push_front c (split_lines ((d # rest) @ ys))"
        using nlf False by auto
      have ih: "split_lines ((d # rest) @ ys) = butlast (k # ks) @ split_lines (last (k # ks) @ ys)"
        using "3.IH"(3)[OF nlf False] k by simp
      show ?thesis
      proof (cases ks)
        case Nil
        with k have kk: "k = d # rest" using split_lines_single by auto
        from Nil k nlf False have "split_lines (c # d # rest) = [c # k]" by auto
        moreover have "split_lines ((c # k) @ ys) = push_front c (split_lines (k @ ys))"
          using nlf False kk by auto
        ultimately show ?thesis using lhs ih Nil kk by simp
      next
        case (Cons a as)
        with k nlf False have "split_lines (c # d # rest) = (c # k) # ks" by auto
        then show ?thesis using lhs ih Cons by simp
      qed
    qed
  qed
qed

lemma split_lines_last_single: "split_lines (last (split_lines xs)) = [last (split_lines xs)]"
proof (induction xs rule: split_lines.induct)
  case 1 show ?case by simp
next
  case (2 c) show ?case by simp
next
  case (3 c d rest)
  show ?case
  proof (cases "c = 10")
    case True
    with "3.IH"(1) split_lines_nonempty[of "d # rest"] show ?thesis by simp
  next
    case nlf: False
    show ?thesis
    proof (cases "c = 13 \<and> d = 10")
      case True
      with nlf "3.IH"(2) split_lines_nonempty[of rest] show ?thesis by simp
    next
      case False
      obtain k ks where k: "split_lines (d # rest) = k # ks"
        using split_lines_nonempty by (cases "split_lines (d # rest)") auto
      have step: "split_lines (c # d # rest) = push_front c (k # ks)"
        using nlf False k by auto
      show ?thesis
      proof (cases ks)
        case Nil
        with k have kk: "k = d # rest" using split_lines_single by auto
        have "last (split_lines (c # d # rest)) = c # d # rest"
          using step Nil kk by simp
        moreover have "split_lines (c # d # rest) = [c # d # rest]"
          using step Nil kk by simp
        ultimately show ?thesis by simp
      next
        case (Cons a as)
        have "last (split_lines (c # d # rest)) = last (split_lines (d # rest))"
          using step k Cons by simp
        then show ?thesis using "3.IH"(3)[OF nlf False] by simp
      qed
    qed
  qed
qed

text \<open>
  The handler run on a sequence of chunks processes the text that the chunks decode to, one
  after the other, as if that text had arrived at once.
\<close>

lemma run_stdout_whole:
  "split_lines b = [b] \<Longrightarrow>
   run_stdout request mw b chunks =
     (last (split_lines (b @ concat (map toString chunks))),
      butlast (split_lines (b @ concat (map toString chunks))),
      concat (map (line_events request mw) (butlast (split_lines (b @ concat (map toString chunks))))))"
proof (induction chunks arbitrary: b)
  case Nil
  then show ?case by simp
next
  case (Cons data rest)
  let ?t = "concat (map toString rest)"
  let ?b' = "last (split_lines (b @ toString data))"
  have sd: "stdout_data request mw b data =
      (?b', butlast (split_lines (b @ toString data)),
       concat (map (line_events request mw) (butlast (split_lines (b @ toString data)))))"
    by (simp add: stdout_data_def Let_def split_lines_nonempty)
  have ih: "run_stdout request mw ?b' rest =
     (last (split_lines (?b' @ ?t)),
      butlast (split_lines (?b' @ ?t)),
      concat (map (line_events request mw) (butlast (split_lines (?b' @ ?t)))))"
    by (rule Cons.IH) (rule split_lines_last_single)
  have app: "split_lines (b @ concat (map toString (data # rest))) =
      butlast (split_lines (b @ toString data)) @ split_lines (?b' @ ?t)"
    using split_lines_append[of "b @ toString data" ?t] by simp
  have ne: "split_lines (?b' @ ?t) \<noteq> []" by (rule split_lines_nonempty)
  show ?case
    unfolding app using sd ih ne by (simp add: butlast_append)
qed

lemma lines_of_run:
  "fst (snd (run_stdout request w [] chunks)) =
     butlast (split_lines (concat (map toString chunks)))"
proof -
  have e: "split_lines [] = [[]]" by simp
  show ?thesis unfolding run_stdout_whole[OF e, of request w chunks] by simp
qed

lemma events_of_run:
  "snd (snd (run_stdout request w [] chunks)) =
     concat (map (line_events request w) (butlast (split_lines (concat (map toString chunks)))))"
proof -
  have e: "split_lines [] = [[]]" by simp
  show ?thesis unfolding run_stdout_whole[OF e, of request w chunks] by simp
qed

text \<open>A chunk of ASCII bytes decodes to the bytes themselves.\<close>

lemma toString_ascii:
  "\<forall>c \<in> set data. (of_char c :: nat) < 128 \<Longrightarrow> toString data = map of_char data"
  unfolding toString_def by (induction data) (simp_all add: Let_def)

lemma toString_ascii_chunks:
  assumes "\<forall>data \<in> set chunks. \<forall>c \<in> set data. (of_char c :: nat) < 128"
  shows "toString (concat chunks) = concat (map toString chunks)"
proof -
  have "\<forall>c \<in> set (concat chunks). (of_char c :: nat) < 128" using assms by auto
  then have "toString (concat chunks) = map of_char (concat chunks)" by (rule toString_ascii)
  also have "\<dots> = concat (map (map of_char) chunks)" by (simp add: map_concat)
  also have "map (map of_char) chunks = map toString chunks"
    using assms by (simp add: toString_ascii)
  finally show ?thesis .
qed

lemmas number_eval =
  StringToNumber_def trim_units_def is_ws_unit_def parse_radix_def parse_unsigned_def
  is_digit_def parse_exponent_def hex_val_def js_div_def js_mul_def Math_min_def is_inf_def
  units_def round64_numeral round64_half round64_quarter round64_neg

lemmas stream_eval =
  stdout_data_def line_events_def line_progress_def line_key_def line_value_def LF_def CR_def
  toString_def code_point_units_def units_def

lemma example_chunks_ascii:
  "list_all (\<lambda>data. list_all (\<lambda>c. (of_char c :: nat) < 128) data) example_chunks"
  by (simp add: example_chunks_def LF_def CR_def)

lemma example_lines:
  "fst (snd (run_stdout example_request True [] example_chunks)) =
     [units ''out_time_ms=2500000'', units ''out_time_ms=5000000'']"
  by (simp add: example_chunks_def stream_eval)

lemma whole_sent: "sent_progress example_request True whole_chunk = [Fin (1 / 2)]"
  by (simp add: sent_progress_def whole_chunk_def example_request_def stream_eval number_eval)

lemma cut_sent: "sent_progress example_request True cut_chunks = [NaN]"
  by (simp add: sent_progress_def cut_chunks_def example_request_def stream_eval number_eval)

text \<open>
  C4, as amended. The carry buffer makes the parser independent of how the text of the output
  is cut: on any sequence of chunks, the carry buffer left at the end, the complete lines
  processed and the progress events sent are those of the texts of the chunks joined
  together; the buffer is the piece after the last line break of that text, and the lines
  processed are the pieces before it. Each chunk is decoded on its own, so the outcome is
  that of the whole stream arriving as one chunk whenever the texts of the chunks joined
  together are the text of the whole stream, which is so for every stream of ASCII bytes
  and every way of cutting it.
\<close>

theorem progress_parser_chunking:
  "fst (run_stdout request w [] chunks) = last (split_lines (concat (map toString chunks)))
   \<and> fst (snd (run_stdout request w [] chunks)) =
       butlast (split_lines (concat (map toString chunks)))
   \<and> snd (snd (run_stdout request w [] chunks)) =
       concat (map (line_events request w) (butlast (split_lines (concat (map toString chunks)))))
   \<and> (toString (concat chunks) = concat (map toString chunks)
        \<longrightarrow> run_stdout request w [] chunks = run_stdout request w [] [concat chunks])
   \<and> ((\<forall>data \<in> set chunks. \<forall>c \<in> set data. (of_char c :: nat) < 128)
        \<longrightarrow> toString (concat chunks) = concat (map toString chunks)
            \<and> run_stdout request w [] chunks = run_stdout request w [] [concat chunks])"
proof -
  have e: "split_lines [] = [[]]" by simp
  have whole: "run_stdout request w [] chunks = run_stdout request w [] [concat chunks]"
    if "toString (concat chunks) = concat (map toString chunks)"
    unfolding run_stdout_whole[OF e, of request w chunks]
      run_stdout_whole[OF e, of request w "[concat chunks]"]
    using that by simp
  show ?thesis
    using whole toString_ascii_chunks[of chunks]
    by (simp add: run_stdout_whole[OF e, of request w chunks])
qed

theorem progress_parser_chunking_witness:
  "list_all (\<lambda>data. list_all (\<lambda>c. (of_char c :: nat) < 128) data) example_chunks
   \<and> toString (concat example_chunks) = concat (map toString example_chunks)
   \<and> run_stdout example_request True [] example_chunks =
       run_stdout example_request True [] [concat example_chunks]
   \<and> fst (snd (run_stdout example_request True [] example_chunks)) =
       [units ''out_time_ms=2500000'', units ''out_time_ms=5000000'']"
proof -
  have a: "\<forall>data \<in> set example_chunks. \<forall>c \<in> set data. (of_char c :: nat) < 128"
    using example_chunks_ascii by (simp add: list_all_iff)
  from progress_parser_chunking[of example_request True example_chunks] a
  have "toString (concat example_chunks) = concat (map toString example_chunks)
        \<and> run_stdout example_request True [] example_chunks =
            run_stdout example_request True [] [concat example_chunks]"
    by blast
  then show ?thesis using example_chunks_ascii example_lines by simp
qed

text \<open>
  C4 fails as stated. The encoder prints an elapsed time of 5 s followed by a no-break space
  (the bytes \<open>C2 A0\<close>) and a line feed, for a total duration of 10 s. As one chunk the line
  gives the progress value 1/2. Cut between the two bytes of the no-break space, the same
  bytes give NaN: each half decodes to a replacement character, and the value is no longer
  a numeric literal.
\<close>

theorem chunking_counterexample:
  "concat cut_chunks = concat whole_chunk
   \<and> sent_progress example_request True whole_chunk = [Fin (1 / 2)]
   \<and> sent_progress example_request True cut_chunks = [NaN]
   \<and> run_stdout example_request True [] cut_chunks \<noteq>
       run_stdout example_request True [] [concat cut_chunks]"
proof -
  have c: "concat cut_chunks = concat whole_chunk"
    by (simp add: cut_chunks_def whole_chunk_def)
  have w: "[concat cut_chunks] = whole_chunk"
    by (simp add: cut_chunks_def whole_chunk_def)
  have "sent_progress example_request True cut_chunks \<noteq>
        sent_progress example_request True [concat cut_chunks]"
    unfolding w by (simp add: whole_sent cut_sent)
  then have "run_stdout example_request True [] cut_chunks \<noteq>
       run_stdout example_request True [] [concat cut_chunks]"
    by (auto simp: sent_progress_def)
  with c show ?thesis by (simp add: whole_sent cut_sent)
qed

subsection \<open>The probe\<close>

lemma Number_json_Inl_iff: "(\<exists>e. Number_json j = Inl e) \<longleftrightarrow> to_string_throws j"
  by (cases j) auto

lemma truthy_if_throws: "to_string_throws j \<Longrightarrow> truthy (Some j)"
  by (cases j) auto

lemma numeric_field_Inl_iff: "(\<exists>e. numeric_field v = Inl e) \<longleftrightarrow> field_throws v"
proof (cases v)
  case None
  then show ?thesis by (simp add: numeric_field_def field_throws_def)
next
  case (Some j)
  show ?thesis
  proof (cases "to_string_throws j")
    case True
    then obtain e where "Number_json j = Inl e" using Number_json_Inl_iff by blast
    with True Some truthy_if_throws[OF True] show ?thesis
      by (simp add: numeric_field_def field_throws_def)
  next
    case False
    then have "\<not> (\<exists>e. Number_json j = Inl e)" using Number_json_Inl_iff by blast
    then obtain n where "Number_json j = Inr n" by (cases "Number_json j") auto
    with False Some show ?thesis by (simp add: numeric_field_def field_throws_def)
  qed
qed

lemma numeric_field_None_iff: "numeric_field v = Inr None \<longleftrightarrow> \<not> truthy v"
  by (cases v) (auto simp: numeric_field_def split: sum.splits)

lemma track_of_ok_iff:
  "(\<exists>t. track_of i s = Inr t) \<longleftrightarrow>
     \<not> field_throws (get_prop s ''sample_rate'') \<and> \<not> field_throws (get_prop s ''bit_rate'')"
proof -
  have a: "\<not> field_throws v \<longleftrightarrow> (\<exists>x. numeric_field v = Inr x)" for v
    using numeric_field_Inl_iff[of v] by (cases "numeric_field v") auto
  show ?thesis unfolding a by (auto simp: track_of_def split: sum.splits)
qed

lemma track_of_fields:
  assumes "track_of i s = Inr t"
  shows "track_audioIndex t = i" and "streamIndex t = get_prop s ''index''"
    and "codecName t = get_prop s ''codec_name''" and "channels t = get_prop s ''channels''"
    and "tags t = get_prop s ''tags''"
    and "numeric_field (get_prop s ''sample_rate'') = Inr (sampleRate t)"
    and "numeric_field (get_prop s ''bit_rate'') = Inr (bitRate t)"
  using assms by (auto simp: track_of_def split: sum.splits)

lemma scan_streams_spec:
  "scan_streams ss k acc = Inr ts \<Longrightarrow>
   \<exists>new. ts = acc @ new \<and> length new = length (filter is_audio ss) \<and>
         (\<forall>n < length new. track_of (k + int n) (filter is_audio ss ! n) = Inr (new ! n))"
proof (induction ss arbitrary: k acc)
  case Nil
  then show ?case by simp
next
  case (Cons s rest)
  from Cons.prems have nn: "s \<noteq> JNull" by (auto split: if_splits)
  show ?case
  proof (cases "is_audio s")
    case False
    with Cons.prems nn have "scan_streams rest k acc = Inr ts" by simp
    from Cons.IH[OF this] False show ?thesis by simp
  next
    case True
    with Cons.prems nn obtain t where t: "track_of k s = Inr t"
      and r: "scan_streams rest (k + 1) (acc @ [t]) = Inr ts"
      by (auto split: sum.splits)
    from Cons.IH[OF r] obtain new where new: "ts = (acc @ [t]) @ new"
      "length new = length (filter is_audio rest)"
      "\<forall>n < length new. track_of (k + 1 + int n) (filter is_audio rest ! n) = Inr (new ! n)"
      by blast
    have "\<forall>n < length (t # new). track_of (k + int n) (filter is_audio (s # rest) ! n) = Inr ((t # new) ! n)"
    proof (intro allI impI)
      fix n assume n: "n < length (t # new)"
      show "track_of (k + int n) (filter is_audio (s # rest) ! n) = Inr ((t # new) ! n)"
      proof (cases n)
        case 0
        with True t show ?thesis by simp
      next
        case (Suc m)
        with n have "m < length new" by simp
        with new(3) have "track_of (k + 1 + int m) (filter is_audio rest ! m) = Inr (new ! m)" by simp
        moreover have "k + 1 + int m = k + int (Suc m)" by simp
        ultimately show ?thesis using Suc True by simp
      qed
    qed
    with new(1,2) True show ?thesis
      by (intro exI[of _ "t # new"]) simp
  qed
qed

lemma scan_streams_ok_iff:
  "(\<exists>ts. scan_streams ss k acc = Inr ts) \<longleftrightarrow> list_all stream_ok ss"
proof (induction ss arbitrary: k acc)
  case Nil
  show ?case by simp
next
  case (Cons s rest)
  show ?case
  proof (cases "s = JNull")
    case True
    then show ?thesis by (simp add: stream_ok_def)
  next
    case nn: False
    show ?thesis
    proof (cases "is_audio s")
      case False
      with nn Cons.IH[of k acc] show ?thesis by (simp add: stream_ok_def)
    next
      case True
      show ?thesis
      proof (cases "track_of k s")
        case (Inl e)
        then have "\<not> (\<exists>t. track_of k s = Inr t)" by simp
        then have "\<not> stream_ok s" using True track_of_ok_iff[of k s] by (simp add: stream_ok_def)
        with Inl nn True show ?thesis by simp
      next
        case (Inr t)
        then have "stream_ok s" using True nn track_of_ok_iff[of k s] by (auto simp: stream_ok_def)
        with Inr nn True Cons.IH[of "k + 1" "acc @ [t]"] show ?thesis by simp
      qed
    qed
  qed
qed

lemma build_result_ok_iff: "(\<exists>r. build_result path v = Inr r) \<longleftrightarrow> shape_ok v"
proof (cases "v = JNull")
  case True
  then show ?thesis by (simp add: build_result_def shape_ok_def)
next
  case nn: False
  show ?thesis
  proof (cases "scan_streams (streams_of v) 0 []")
    case (Inl e)
    then have "\<not> list_all stream_ok (streams_of v)"
      using scan_streams_ok_iff[of "streams_of v" 0 "[]"] by simp
    with Inl nn show ?thesis by (simp add: build_result_def shape_ok_def)
  next
    case (Inr ts)
    then have ok: "list_all stream_ok (streams_of v)"
      using scan_streams_ok_iff[of "streams_of v" 0 "[]"] by auto
    show ?thesis
    proof (cases "numeric_field (opt_prop (get_prop v ''format'') ''duration'')")
      case (Inl e)
      then have "field_throws (opt_prop (get_prop v ''format'') ''duration'')"
        using numeric_field_Inl_iff by blast
      with Inl Inr nn show ?thesis by (simp add: build_result_def shape_ok_def Let_def)
    next
      case d: (Inr d)
      then have "\<not> field_throws (opt_prop (get_prop v ''format'') ''duration'')"
        using numeric_field_Inl_iff[of "opt_prop (get_prop v ''format'') ''duration''"] by auto
      with d Inr nn ok show ?thesis by (simp add: build_result_def shape_ok_def Let_def)
    qed
  qed
qed

lemma build_result_fields:
  assumes "build_result path v = Inr r"
  shows "scan_streams (streams_of v) 0 [] = Inr (audioTracks r)"
    and "numeric_field (opt_prop (get_prop v ''format'') ''duration'') = Inr (probe_duration r)"
    and "probe_filePath r = path"
  using assms by (auto simp: build_result_def Let_def split: if_splits sum.splits)

lemma close_ok_build:
  assumes "runFfprobe_close path ending (Inr v) errorOutput = Inr r"
  shows "build_result path v = Inr r"
  using assms by (auto simp: runFfprobe_close_def split: child_end.splits if_splits)

lemma tracks_of_result:
  assumes "runFfprobe_close path ending (Inr v) errorOutput = Inr r"
  shows "length (audioTracks r) = length (filter is_audio (streams_of v))"
    and "\<forall>n < length (audioTracks r).
           track_of (int n) (filter is_audio (streams_of v) ! n) = Inr (audioTracks r ! n)"
proof -
  from build_result_fields(1)[OF close_ok_build[OF assms]]
  have "scan_streams (streams_of v) 0 [] = Inr (audioTracks r)" .
  from scan_streams_spec[OF this]
  show "length (audioTracks r) = length (filter is_audio (streams_of v))"
    and "\<forall>n < length (audioTracks r).
           track_of (int n) (filter is_audio (streams_of v) ! n) = Inr (audioTracks r ! n)"
    by auto
qed

text \<open>
  C3. On a parsed output of the right shape the probe resolves, and whenever it resolves,
  \<open>audioTracks\<close> has one entry for each stream whose \<open>codec_type\<close> is \<open>"audio"\<close>, in the
  order of the streams; the entries carry the indices 0, 1, ..., N-1 as \<open>audioIndex\<close> and
  the \<open>index\<close> of their stream as \<open>streamIndex\<close>.
\<close>

theorem audio_tracks_dense_in_order:
  "(shape_ok parsed \<longrightarrow>
      (\<exists>r. runFfprobe_close path (Closed (Some 0)) (Inr parsed) errorOutput = Inr r))
   \<and> (runFfprobe_close path ending (Inr parsed) errorOutput = Inr r \<longrightarrow>
        length (audioTracks r) = length (filter is_audio (streams_of parsed))
      \<and> map track_audioIndex (audioTracks r) =
          map int [0 ..< length (filter is_audio (streams_of parsed))]
      \<and> map streamIndex (audioTracks r) =
          map (\<lambda>s. get_prop s ''index'') (filter is_audio (streams_of parsed)))"
proof (intro conjI impI)
  assume "shape_ok parsed"
  then show "\<exists>r. runFfprobe_close path (Closed (Some 0)) (Inr parsed) errorOutput = Inr r"
    using build_result_ok_iff[of path parsed] by (simp add: runFfprobe_close_def)
next
  assume res: "runFfprobe_close path ending (Inr parsed) errorOutput = Inr r"
  note t = tracks_of_result[OF res]
  show "length (audioTracks r) = length (filter is_audio (streams_of parsed))" by (rule t(1))
  show "map track_audioIndex (audioTracks r) =
           map int [0 ..< length (filter is_audio (streams_of parsed))]"
  proof (rule nth_equalityI)
    show "length (map track_audioIndex (audioTracks r)) =
          length (map int [0 ..< length (filter is_audio (streams_of parsed))])"
      using t(1) by simp
  next
    fix n assume "n < length (map track_audioIndex (audioTracks r))"
    then have n: "n < length (audioTracks r)" by simp
    with t(2) have "track_of (int n) (filter is_audio (streams_of parsed) ! n) = Inr (audioTracks r ! n)"
      by simp
    from track_of_fields(1)[OF this] n t(1)
    show "map track_audioIndex (audioTracks r) ! n =
          map int [0 ..< length (filter is_audio (streams_of parsed))] ! n"
      by simp
  qed
  show "map streamIndex (audioTracks r) =
           map (\<lambda>s. get_prop s ''index'') (filter is_audio (streams_of parsed))"
  proof (rule nth_equalityI)
    show "length (map streamIndex (audioTracks r)) =
          length (map (\<lambda>s. get_prop s ''index'') (filter is_audio (streams_of parsed)))"
      using t(1) by simp
  next
    fix n assume "n < length (map streamIndex (audioTracks r))"
    then have n: "n < length (audioTracks r)" by simp
    with t(2) have "track_of (int n) (filter is_audio (streams_of parsed) ! n) = Inr (audioTracks r ! n)"
      by simp
    from track_of_fields(2)[OF this] n t(1)
    show "map streamIndex (audioTracks r) ! n =
          map (\<lambda>s. get_prop s ''index'') (filter is_audio (streams_of parsed)) ! n"
      by simp
  qed
qed

lemma round64_example_duration: "round64 (25 / 2) = Fin (25 / 2)"
  using round64_dyadic[of 25 1] by simp

lemmas probe_eval =
  runFfprobe_close_def build_result_def streams_of_def is_audio_def track_of_def
  numeric_field_def Let_def

lemma example_probe_result:
  "runFfprobe_close ''movie.mkv'' (Closed (Some 0)) (Inr example_probe) [] =
     Inr \<lparr>probe_filePath = ''movie.mkv'', probe_duration = Some (Fin (25 / 2)),
          formatName = None, formatLongName = None,
          audioTracks =
            [\<lparr>track_audioIndex = 0, streamIndex = Some (JNum (Fin 2)), codecName = None,
              channels = None, sampleRate = Some (Fin 48000), bitRate = None, tags = None\<rparr>,
             \<lparr>track_audioIndex = 1, streamIndex = Some (JNum (Fin 5)), codecName = None,
              channels = None, sampleRate = None, bitRate = None, tags = None\<rparr>,
             \<lparr>track_audioIndex = 2, streamIndex = Some (JNum (Fin 7)), codecName = None,
              channels = None, sampleRate = None, bitRate = Some (Fin 128000), tags = None\<rparr>]\<rparr>"
  by (simp add: example_probe_def probe_eval number_eval round64_example_duration)

lemma example_probe_audio:
  "filter is_audio (streams_of example_probe) =
     [JObj [(''index'', JNum (Fin 2)), (''codec_type'', JStr ''audio''),
            (''sample_rate'', JStr ''48000'')],
      JObj [(''index'', JNum (Fin 5)), (''codec_type'', JStr ''audio'')],
      JObj [(''index'', JNum (Fin 7)), (''codec_type'', JStr ''audio''),
            (''bit_rate'', JStr ''128000'')]]"
  by (simp add: example_probe_def streams_of_def is_audio_def)

lemma example_probe_shape: "shape_ok example_probe"
  by (simp add: shape_ok_def stream_ok_def field_throws_def example_probe_def streams_of_def
      is_audio_def)

theorem audio_tracks_dense_in_order_witness:
  "shape_ok example_probe
   \<and> (\<exists>r. runFfprobe_close ''movie.mkv'' (Closed (Some 0)) (Inr example_probe) [] = Inr r
          \<and> length (audioTracks r) = 3
          \<and> map track_audioIndex (audioTracks r) = [0, 1, 2]
          \<and> map streamIndex (audioTracks r) =
              [Some (JNum (Fin 2)), Some (JNum (Fin 5)), Some (JNum (Fin 7))])"
proof -
  have "\<exists>r. runFfprobe_close ''movie.mkv'' (Closed (Some 0)) (Inr example_probe) [] = Inr r"
    using audio_tracks_dense_in_order[of example_probe "''movie.mkv''" "[]"] example_probe_shape
    by blast
  then obtain r where r: "runFfprobe_close ''movie.mkv'' (Closed (Some 0)) (Inr example_probe) [] = Inr r"
    by blast
  have u: "[0 ..< 3] = [0, 1, 2 :: nat]" by (simp add: upt_rec)
  from audio_tracks_dense_in_order[of example_probe "''movie.mkv''" "[]" "Closed (Some 0)" r] r u
  have p: "length (audioTracks r) = 3
          \<and> map track_audioIndex (audioTracks r) = [0, 1, 2]
          \<and> map streamIndex (audioTracks r) =
              [Some (JNum (Fin 2)), Some (JNum (Fin 5)), Some (JNum (Fin 7))]"
    by (simp add: example_probe_audio)
  show ?thesis
  proof (intro conjI example_probe_shape exI[of _ r])
    show "runFfprobe_close ''movie.mkv'' (Closed (Some 0)) (Inr example_probe) [] = Inr r" by (rule r)
    show "length (audioTracks r) = 3" using p by (elim conjE)
    show "map track_audioIndex (audioTracks r) = [0, 1, 2]" using p by (elim conjE)
    show "map streamIndex (audioTracks r) =
              [Some (JNum (Fin 2)), Some (JNum (Fin 5)), Some (JNum (Fin 7))]" using p by (elim conjE)
  qed
qed

text \<open>
  C5 fails as stated. For an audio stream whose \<open>sample_rate\<close> is the text \<open>N/A\<close> and whose
  \<open>bit_rate\<close> is \<open>true\<close>, in a file whose \<open>format.duration\<close> is a blank text, the probe
  resolves with \<open>sampleRate\<close> NaN, \<open>bitRate\<close> 1 and \<open>duration\<close> 0: none of them is unset.
\<close>

theorem numeric_fields_counterexample:
  "runFfprobe_close ''movie.mkv'' (Closed (Some 0)) (Inr odd_probe) [] =
     Inr \<lparr>probe_filePath = ''movie.mkv'', probe_duration = Some (Fin 0),
          formatName = None, formatLongName = None,
          audioTracks =
            [\<lparr>track_audioIndex = 0, streamIndex = Some (JNum (Fin 1)), codecName = None,
              channels = None, sampleRate = Some NaN, bitRate = Some (Fin 1), tags = None\<rparr>]\<rparr>"
  by (simp add: odd_probe_def probe_eval number_eval)

lemma numeric_field_of_string:
  "numeric_field (Some (JStr x)) = Inr (if x = [] then None else Some (StringToNumber (units x)))"
  by (simp add: numeric_field_def)

lemma numeric_field_of_number:
  "numeric_field (Some (JNum n)) = Inr (if truthy_number (Some n) then Some n else None)"
  by (simp add: numeric_field_def)

lemma numeric_field_of_bool:
  "numeric_field (Some (JBool b)) = Inr (if b then Some (Fin 1) else None)"
  by (simp add: numeric_field_def)

lemma tracks_numeric_fields:
  assumes "runFfprobe_close path ending (Inr v) errorOutput = Inr r"
  shows "list_all2
           (\<lambda>s t. numeric_field (get_prop s ''sample_rate'') = Inr (sampleRate t)
                 \<and> numeric_field (get_prop s ''bit_rate'') = Inr (bitRate t))
           (filter is_audio (streams_of v)) (audioTracks r)"
proof (rule list_all2_all_nthI)
  show "length (filter is_audio (streams_of v)) = length (audioTracks r)"
    using tracks_of_result(1)[OF assms] by simp
next
  fix n assume "n < length (filter is_audio (streams_of v))"
  then have "n < length (audioTracks r)" using tracks_of_result(1)[OF assms] by simp
  with tracks_of_result(2)[OF assms]
  have t: "track_of (int n) (filter is_audio (streams_of v) ! n) = Inr (audioTracks r ! n)" by simp
  show "numeric_field (get_prop (filter is_audio (streams_of v) ! n) ''sample_rate'')
          = Inr (sampleRate (audioTracks r ! n))
      \<and> numeric_field (get_prop (filter is_audio (streams_of v) ! n) ''bit_rate'')
          = Inr (bitRate (audioTracks r ! n))"
    using track_of_fields(6,7)[OF t] by simp
qed

text \<open>
  C5, as amended. When the probe resolves, each of the fields \<open>sampleRate\<close>, \<open>bitRate\<close> and
  \<open>duration\<close> is \<open>v ? Number(v) : undefined\<close> of the value \<open>v\<close> in the output of the prober.
  It is unset exactly when \<open>v\<close> is falsy: absent, \<open>null\<close>, \<open>false\<close>, the number 0 or the empty
  text. A text that is not empty is stored as the number it converts to, which is NaN when
  it is no numeric literal; a number that is not 0 is stored as it is; \<open>true\<close> is stored as 1.
\<close>

theorem numeric_fields_unset_iff_falsy:
  assumes "runFfprobe_close path ending (Inr parsed) errorOutput = Inr r"
  shows "numeric_field (opt_prop (get_prop parsed ''format'') ''duration'') = Inr (probe_duration r)
       \<and> list_all2
           (\<lambda>s t. numeric_field (get_prop s ''sample_rate'') = Inr (sampleRate t)
                 \<and> numeric_field (get_prop s ''bit_rate'') = Inr (bitRate t))
           (filter is_audio (streams_of parsed)) (audioTracks r)
       \<and> (probe_duration r = None \<longleftrightarrow>
            \<not> truthy (opt_prop (get_prop parsed ''format'') ''duration''))
       \<and> list_all2
           (\<lambda>s t. (sampleRate t = None \<longleftrightarrow> \<not> truthy (get_prop s ''sample_rate''))
                 \<and> (bitRate t = None \<longleftrightarrow> \<not> truthy (get_prop s ''bit_rate'')))
           (filter is_audio (streams_of parsed)) (audioTracks r)
       \<and> (\<forall>x. numeric_field (Some (JStr x)) =
                 Inr (if x = [] then None else Some (StringToNumber (units x))))
       \<and> (\<forall>n. numeric_field (Some (JNum n)) = Inr (if truthy_number (Some n) then Some n else None))
       \<and> (\<forall>b. numeric_field (Some (JBool b)) = Inr (if b then Some (Fin 1) else None))"
proof -
  have d: "numeric_field (opt_prop (get_prop parsed ''format'') ''duration'') = Inr (probe_duration r)"
    by (rule build_result_fields(2)[OF close_ok_build[OF assms]])
  note f = tracks_numeric_fields[OF assms]
  have d0: "probe_duration r = None \<longleftrightarrow>
            \<not> truthy (opt_prop (get_prop parsed ''format'') ''duration'')"
    using d numeric_field_None_iff[of "opt_prop (get_prop parsed ''format'') ''duration''"] by auto
  have f0: "list_all2
           (\<lambda>s t. (sampleRate t = None \<longleftrightarrow> \<not> truthy (get_prop s ''sample_rate''))
                 \<and> (bitRate t = None \<longleftrightarrow> \<not> truthy (get_prop s ''bit_rate'')))
           (filter is_audio (streams_of parsed)) (audioTracks r)"
  proof (rule list_all2_mono[OF f])
    fix s t
    assume "numeric_field (get_prop s ''sample_rate'') = Inr (sampleRate t)
          \<and> numeric_field (get_prop s ''bit_rate'') = Inr (bitRate t)"
    then show "(sampleRate t = None \<longleftrightarrow> \<not> truthy (get_prop s ''sample_rate''))
             \<and> (bitRate t = None \<longleftrightarrow> \<not> truthy (get_prop s ''bit_rate''))"
      using numeric_field_None_iff[of "get_prop s ''sample_rate''"]
        numeric_field_None_iff[of "get_prop s ''bit_rate''"] by auto
  qed
  from d f d0 f0 numeric_field_of_string numeric_field_of_number numeric_field_of_bool
  show ?thesis by blast
qed

theorem numeric_fields_unset_iff_falsy_witness:
  "\<exists>r. runFfprobe_close ''movie.mkv'' (Closed (Some 0)) (Inr example_probe) [] = Inr r
       \<and> probe_duration r = Some (Fin (25 / 2))
       \<and> truthy (opt_prop (get_prop example_probe ''format'') ''duration'')
       \<and> map sampleRate (audioTracks r) = [Some (Fin 48000), None, None]
       \<and> map bitRate (audioTracks r) = [None, None, Some (Fin 128000)]
       \<and> list_all2
           (\<lambda>s t. (sampleRate t = None \<longleftrightarrow> \<not> truthy (get_prop s ''sample_rate''))
                 \<and> (bitRate t = None \<longleftrightarrow> \<not> truthy (get_prop s ''bit_rate'')))
           (filter is_audio (streams_of example_probe)) (audioTracks r)"
proof -
  obtain r where r: "runFfprobe_close ''movie.mkv'' (Closed (Some 0)) (Inr example_probe) [] = Inr r"
    using example_probe_result by blast
  have t: "truthy (opt_prop (get_prop example_probe ''format'') ''duration'')"
    by (simp add: example_probe_def)
  from r have v: "probe_duration r = Some (Fin (25 / 2))"
    "map sampleRate (audioTracks r) = [Some (Fin 48000), None, None]"
    "map bitRate (audioTracks r) = [None, None, Some (Fin 128000)]"
    unfolding example_probe_result by auto
  have f: "list_all2
           (\<lambda>s t. (sampleRate t = None \<longleftrightarrow> \<not> truthy (get_prop s ''sample_rate''))
                 \<and> (bitRate t = None \<longleftrightarrow> \<not> truthy (get_prop s ''bit_rate'')))
           (filter is_audio (streams_of example_probe)) (audioTracks r)"
    using numeric_fields_unset_iff_falsy[OF r] by (elim conjE)
  show ?thesis by (rule exI[of _ r]) (intro conjI r t v f)
qed

text \<open>
  C6 fails as stated. The prober exits with code 0 and prints \<open>{"streams":[null]}\<close>, which
  is JSON; reading \<open>codec_type\<close> of the \<open>null\<close> entry throws inside the \<open>try\<close> block, and the
  probe rejects with that TypeError.
\<close>

theorem probe_claim_counterexample:
  "runFfprobe_close ''movie.mkv'' (Closed (Some 0)) (Inr (JObj [(''streams'', JArr [JNull])])) []
     = Inl (TypeError ''Cannot read properties of null (reading 'codec_type')'')"
  by (simp add: probe_eval)

text \<open>
  C6, as amended. The probe rejects exactly when the prober could not be started, when it
  ends with an exit code other than 0, or when it exits with 0 and its output either is not
  JSON or is JSON on which the \<open>try\<close> block throws: the value \<open>null\<close>, a \<open>null\<close> entry of
  \<open>streams\<close>, or a numeric field whose conversion to a number throws. After an exit code
  other than 0 the error message ends with the trimmed diagnostic output. In every other
  case the probe resolves.
\<close>

theorem probe_rejects_iff:
  "((\<exists>e. runFfprobe_close path ending parsed errorOutput = Inl e) \<longleftrightarrow>
      (case ending of
         SpawnFailed m \<Rightarrow> True
       | Closed code \<Rightarrow>
           code \<noteq> Some 0 \<or> (case parsed of Inl m \<Rightarrow> True | Inr v \<Rightarrow> \<not> shape_ok v)))
   \<and> (\<forall>code. code \<noteq> Some 0 \<longrightarrow>
         runFfprobe_close path (Closed code) parsed errorOutput =
           Inl (Error (''ffprobe exited with code '' @ code_text code @ ''. '' @ trim errorOutput)))
   \<and> (\<forall>v. shape_ok v \<longrightarrow>
         (\<exists>r. runFfprobe_close path (Closed (Some 0)) (Inr v) errorOutput = Inr r))"
proof (intro conjI allI impI)
  have b: "(\<exists>e. build_result path v = Inl e) \<longleftrightarrow> \<not> shape_ok v" for v
    using build_result_ok_iff[of path v] by (cases "build_result path v") auto
  show "(\<exists>e. runFfprobe_close path ending parsed errorOutput = Inl e) \<longleftrightarrow>
      (case ending of
         SpawnFailed m \<Rightarrow> True
       | Closed code \<Rightarrow>
           code \<noteq> Some 0 \<or> (case parsed of Inl m \<Rightarrow> True | Inr v \<Rightarrow> \<not> shape_ok v))"
    using b by (auto simp: runFfprobe_close_def split: child_end.splits sum.splits)
next
  fix code :: "int option" assume "code \<noteq> Some 0"
  then show "runFfprobe_close path (Closed code) parsed errorOutput =
           Inl (Error (''ffprobe exited with code '' @ code_text code @ ''. '' @ trim errorOutput))"
    by (simp add: runFfprobe_close_def)
next
  fix v assume "shape_ok v"
  then show "\<exists>r. runFfprobe_close path (Closed (Some 0)) (Inr v) errorOutput = Inr r"
    using build_result_ok_iff[of path v] by (simp add: runFfprobe_close_def)
qed

lemma nat_text_digit: "n < 10 \<Longrightarrow> nat_text n = [digit_char n]"
  by (subst nat_text.simps) simp

lemma int_text_digit: "0 \<le> i \<Longrightarrow> i < 10 \<Longrightarrow> int_text i = [digit_char (nat i)]"
  by (simp add: int_text_def nat_text_digit)

lemma text_of_one: "code_text (Some 1) = ''1''"
  by (simp add: code_text_def int_text_digit digit_char_def)

lemma trim_example_diagnostic:
  "trim example_diagnostic = ''movie.mkv: Invalid data found when processing input''"
  by (simp add: example_diagnostic_def trim_def is_ws_def is_ws_unit_def LF_def)

theorem probe_rejects_iff_witness:
  "runFfprobe_close ''movie.mkv'' (Closed (Some 1)) (Inl ''Unexpected end of JSON input'')
       example_diagnostic
     = Inl (Error ''ffprobe exited with code 1. movie.mkv: Invalid data found when processing input'')
   \<and> shape_ok example_probe
   \<and> (\<exists>r. runFfprobe_close ''movie.mkv'' (Closed (Some 0)) (Inr example_probe)
            example_diagnostic = Inr r)
   \<and> \<not> shape_ok (JObj [(''streams'', JArr [JNull])])
   \<and> (\<exists>e. runFfprobe_close ''movie.mkv'' (Closed (Some 0)) (Inr (JObj [(''streams'', JArr [JNull])]))
            example_diagnostic = Inl e)"
proof -
  have c: "Some (1::int) \<noteq> Some 0" by simp
  have n: "\<not> shape_ok (JObj [(''streams'', JArr [JNull])])"
    by (simp add: shape_ok_def stream_ok_def streams_of_def)
  from probe_rejects_iff[of "''movie.mkv''" "Closed (Some 0)" "Inr (JObj [(''streams'', JArr [JNull])])"
      example_diagnostic] n
  have r: "\<exists>e. runFfprobe_close ''movie.mkv'' (Closed (Some 0)) (Inr (JObj [(''streams'', JArr [JNull])]))
            example_diagnostic = Inl e"
    by simp
  from probe_rejects_iff[of "''movie.mkv''" "Closed (Some 1)" "Inl ''Unexpected end of JSON input''"
      example_diagnostic]
  have "runFfprobe_close ''movie.mkv'' (Closed (Some 1)) (Inl ''Unexpected end of JSON input'')
       example_diagnostic
     = Inl (Error (''ffprobe exited with code '' @ code_text (Some 1) @ ''. '' @ trim example_diagnostic))"
    using c by blast
  then have a: "runFfprobe_close ''movie.mkv'' (Closed (Some 1)) (Inl ''Unexpected end of JSON input'')
       example_diagnostic
     = Inl (Error ''ffprobe exited with code 1. movie.mkv: Invalid data found when processing input'')"
    by (simp add: text_of_one trim_example_diagnostic)
  from probe_rejects_iff[of "''movie.mkv''" "Closed (Some 1)" "Inl ''Unexpected end of JSON input''"
      example_diagnostic] example_probe_shape
  have s: "\<exists>r. runFfprobe_close ''movie.mkv'' (Closed (Some 0)) (Inr example_probe)
            example_diagnostic = Inr r"
    by blast
  from a example_probe_shape s n r show ?thesis by blast
qed

subsection \<open>The extraction\<close>


lemma ensureTempDir_made:
  assumes "tempDir st = None \<or> tempDir st = Some []"
  shows "ensureTempDir env (Inr suffix) st =
         (Inr (path_join (tmpdir env) ''audio-track-selector-'' @ suffix),
          (emit (Fs_mkdtemp (path_join (tmpdir env) ''audio-track-selector-'')) st)
            \<lparr>tempDir := Some (path_join (tmpdir env) ''audio-track-selector-'' @ suffix)\<rparr>)"
  using assms by (auto simp: ensureTempDir_def Let_def)


lemma logToRenderer_frame:
  "tempDir (logToRenderer ev st) = tempDir st" "children (logToRenderer ev st) = children st"
  "next_pid (logToRenderer ev st) = next_pid st" "mainWindow (logToRenderer ev st) = mainWindow st"
  by (simp_all add: logToRenderer_def emit_def)

lemma logToRenderer_trace:
  "trace (logToRenderer ev st) = trace st @ (if mainWindow st then [Send_log ev] else [])"
  by (simp add: logToRenderer_def emit_def)





lemma int_text_zero: "int_text 0 = ''0''"
  by (simp add: int_text_digit digit_char_def)


lemma example_dir_made:
  "example_dir = path_join (tmpdir example_env) ''audio-track-selector-'' @ example_suffix"
  by (simp add: example_dir_def example_env_def example_suffix_def path_join_def)



lemmas app_eval =
  run_def extract_track_def runFfmpegExtraction_def ensureTempDir_def logToRenderer_def emit_def
  child_ended_def runFfmpegExtraction_close_def ready_state_def Let_def

subsection \<open>The two processes on the examples\<close>

lemmas renderer_eval =
  handleOpenFile_def handleEnableTrack_def handleEnableTrack_resolved_def
  handleEnableTrack_rejected_def set_track_def attach_node_def initial_renderer_def

lemma example_opened:
  "open_file example_dialog = Some ''movie.mkv''"
  by (simp add: open_file_def example_dialog_def)

lemma example_probed:
  "probe_file example_env ''movie.mkv'' None (Closed (Some 0)) (Inr example_probe) []
       \<lparr>tempDir = None, mainWindow = True, children = [], next_pid = 0, trace = []\<rparr> =
     (runFfprobe_close ''movie.mkv'' (Closed (Some 0)) (Inr example_probe) [],
      \<lparr>tempDir = None, mainWindow = True, children = [], next_pid = 0,
       trace =
         [Send_log \<lparr>level = log_level.info, message = ''Running ffprobe: ffprobe''\<rparr>,
          Spawn ''ffprobe'' (ffprobe_args ''movie.mkv'')]\<rparr>)"
  by (simp add: probe_file_def cleanupTempDir_def runFfprobe_def Let_def logToRenderer_def emit_def
      getFfprobePath_def resolveBinary_def example_env_def example_probe_result)

lemma opened_system_value:
  "opened_system =
     \<lparr>main_state =
        \<lparr>tempDir = None, mainWindow = True, children = [], next_pid = 0,
         trace =
           [Send_log \<lparr>level = log_level.info, message = ''Running ffprobe: ffprobe''\<rparr>,
            Spawn ''ffprobe'' (ffprobe_args ''movie.mkv'')]\<rparr>,
      renderer =
        \<lparr>status = Status_Ready, opened_filePath = Some ''movie.mkv'',
         probeResult =
           Some \<lparr>probe_filePath = ''movie.mkv'', probe_duration = Some (Fin (25 / 2)),
                 formatName = None, formatLongName = None,
                 audioTracks =
                   [\<lparr>track_audioIndex = 0, streamIndex = Some (JNum (Fin 2)), codecName = None,
                     channels = None, sampleRate = Some (Fin 48000), bitRate = None,
                     tags = None\<rparr>,
                    \<lparr>track_audioIndex = 1, streamIndex = Some (JNum (Fin 5)), codecName = None,
                     channels = None, sampleRate = None, bitRate = None, tags = None\<rparr>,
                    \<lparr>track_audioIndex = 2, streamIndex = Some (JNum (Fin 7)), codecName = None,
                     channels = None, sampleRate = None, bitRate = Some (Fin 128000),
                     tags = None\<rparr>]\<rparr>,
         tracks =
           [\<lparr>track_info =
               \<lparr>track_audioIndex = 0, streamIndex = Some (JNum (Fin 2)), codecName = None,
                channels = None, sampleRate = Some (Fin 48000), bitRate = None, tags = None\<rparr>,
             enabled = False, muted = False, volume = Fin 100, extracting = False,
             track_progress = Fin 0, track_error = None, track_outputPath = None\<rparr>,
            \<lparr>track_info =
               \<lparr>track_audioIndex = 1, streamIndex = Some (JNum (Fin 5)), codecName = None,
                channels = None, sampleRate = None, bitRate = None, tags = None\<rparr>,
             enabled = False, muted = False, volume = Fin 100, extracting = False,
             track_progress = Fin 0, track_error = None, track_outputPath = None\<rparr>,
            \<lparr>track_info =
               \<lparr>track_audioIndex = 2, streamIndex = Some (JNum (Fin 7)), codecName = None,
                channels = None, sampleRate = None, bitRate = Some (Fin 128000), tags = None\<rparr>,
             enabled = False, muted = False, volume = Fin 100, extracting = False,
             track_progress = Fin 0, track_error = None, track_outputPath = None\<rparr>],
         audioNodes = []\<rparr>,
      waiting = []\<rparr>"
  by (simp add: opened_system_def ready_system_def ready_state_def example_opened example_probed
      example_probe_result renderer_eval)

lemmas system_eval =
  acts_def opened_system_value renderer_eval app_eval in_flight_def spawned_for_def
  is_spawn_for_def ffmpeg_args_def ffprobe_args_def path_join_def example_env_def
  example_suffix_def int_text_zero

subsection \<open>Progress values\<close>

lemma line_progress_no_duration:
  "\<not> truthy_number (duration request) \<Longrightarrow> line_progress request line = None"
  by (simp add: line_progress_def)

lemma line_events_no_duration:
  "\<not> truthy_number (duration request) \<Longrightarrow> line_events request w line = []"
  by (simp add: line_events_def line_progress_no_duration)

text \<open>
  C8. When the request carries no total duration, no progress event is sent during the job,
  whatever the encoder prints, and the progress formula with its division by the duration
  is evaluated on no line.
\<close>

theorem no_progress_without_duration:
  assumes "duration request = None"
  shows "sent_progress request w chunks = [] \<and> progress_evaluations request chunks = 0"
proof -
  have nt: "\<not> truthy_number (duration request)" using assms by simp
  have "snd (snd (run_stdout request w [] chunks)) = []"
    unfolding events_of_run by (simp add: line_events_no_duration[OF nt])
  then have a: "sent_progress request w chunks = []"
    by (simp add: sent_progress_def)
  have b: "progress_evaluations request chunks = 0"
    by (simp add: progress_evaluations_def line_progress_no_duration[OF nt])
  from a b show ?thesis by simp
qed

theorem no_progress_without_duration_witness:
  "duration \<lparr>filePath = ''movie.mkv'', audioIndex = 0, duration = None\<rparr> = None
   \<and> sent_progress \<lparr>filePath = ''movie.mkv'', audioIndex = 0, duration = None\<rparr> True
         [''out_time_ms=5000000'' @ [LF]] = []
   \<and> progress_evaluations \<lparr>filePath = ''movie.mkv'', audioIndex = 0, duration = None\<rparr>
         [''out_time_ms=5000000'' @ [LF]] = 0"
  using no_progress_without_duration
    [of "\<lparr>filePath = ''movie.mkv'', audioIndex = 0, duration = None\<rparr>" True
        "[''out_time_ms=5000000'' @ [LF]]"]
  by simp

lemma Math_min_one: "Math_min x (Fin 1) = NaN \<or> js_le (Math_min x (Fin 1)) (Fin 1)"
  by (cases x) (simp_all add: Math_min_def)

lemma line_events_progress:
  "e \<in> set (line_events request w line) \<Longrightarrow> line_progress request line = Some (progress e)"
  by (auto simp: line_events_def split: option.splits if_splits)

lemma sent_progress_elem:
  assumes "p \<in> set (sent_progress request w chunks)"
  shows "\<exists>line. line_progress request line = Some p"
proof -
  from assms obtain e where e: "e \<in> set (snd (snd (run_stdout request w [] chunks)))" "p = progress e"
    by (auto simp: sent_progress_def)
  from e(1) obtain line where "e \<in> set (line_events request w line)"
    unfolding events_of_run by auto
  with e(2) show ?thesis using line_events_progress by blast
qed

lemma line_progress_form:
  "line_progress request line = Some p \<Longrightarrow> \<exists>x. p = Math_min x (Fin 1)"
  by (auto simp: line_progress_def Let_def split: if_splits option.splits)

lemma sent_progress_window:
  "sent_progress request w chunks = (if w then sent_progress request True chunks else [])"
proof (cases w)
  case True then show ?thesis by simp
next
  case False
  have "line_events request False = (\<lambda>line. [])"
    by (rule ext) (simp add: line_events_def split: option.splits)
  then show ?thesis using False
    by (simp add: sent_progress_def events_of_run)
qed

lemma progress_of_lines:
  assumes "duration request = Some dn" and "truthy_number (Some dn)"
  shows "map progress (concat (map (line_events request True) ls)) =
         map (\<lambda>n. Math_min (js_div n (js_mul dn (Fin 1000000))) (Fin 1))
           (map (\<lambda>line. Number_str (line_value line))
             (filter (\<lambda>line. line_key line = Some (units ''out_time_ms'')) ls))"
  using assms
  by (induction ls) (simp_all add: line_events_def line_progress_def)

lemma sent_progress_formula:
  assumes "duration request = Some dn" and "truthy_number (Some dn)"
  shows "sent_progress request True chunks =
         map (\<lambda>n. Math_min (js_div n (js_mul dn (Fin 1000000))) (Fin 1))
           (out_time_values request chunks)"
  unfolding sent_progress_def out_time_values_def events_of_run lines_of_run
  by (rule progress_of_lines[OF assms])

text \<open>
  The product \<open>duration * 1000000\<close> for a duration that is a positive binary64 value: an
  infinity or a positive number.
\<close>

lemma scaled_duration:
  assumes "0 < d" and "round64 d = Fin d"
  shows "js_mul (Fin d) (Fin 1000000) = Infinity
       \<or> (\<exists>r. js_mul (Fin d) (Fin 1000000) = Fin r \<and> 0 < r)"
proof -
  have "2 powi (- 1074) \<le> d" by (rule representable_lower[OF assms])
  also have "d \<le> d * 1000000" using assms(1) by simp
  finally have l: "2 powi (- 1074) \<le> d * 1000000" .
  have p: "0 < d * 1000000" using assms(1) by simp
  from round64_pos[OF p l] show ?thesis by (simp add: js_mul_def)
qed

lemma progress_range:
  assumes "D = Infinity \<or> (\<exists>r. D = Fin r \<and> 0 < r)" and "0 \<le> m"
  shows "\<exists>q. Math_min (js_div (Fin m) D) (Fin 1) = Fin q \<and> 0 \<le> q \<and> q \<le> 1"
proof -
  from assms(1) consider (inf) "D = Infinity" | (fin) r where "D = Fin r" "0 < r" by blast
  then show ?thesis
  proof cases
    case inf
    then show ?thesis by (simp add: js_div_def is_inf_def Math_min_def)
  next
    case fin
    then have q: "js_div (Fin m) D = round64 (m / r)" by (simp add: js_div_def is_inf_def)
    have "0 \<le> m / r" using assms(2) fin(2) by simp
    from round64_nonneg[OF this] show ?thesis unfolding q
      by (auto simp: Math_min_def)
  qed
qed

lemma Math_min_mono:
  assumes "js_le a b"
  shows "js_le (Math_min a (Fin 1)) (Math_min b (Fin 1))"
  using assms by (cases a; cases b) (auto simp: Math_min_def)

lemma progress_mono:
  assumes "D = Infinity \<or> (\<exists>r. D = Fin r \<and> 0 < r)" and "0 \<le> m" and "m \<le> m'"
  shows "js_le (Math_min (js_div (Fin m) D) (Fin 1)) (Math_min (js_div (Fin m') D) (Fin 1))"
proof -
  from assms(1) consider (inf) "D = Infinity" | (fin) r where "D = Fin r" "0 < r" by blast
  then show ?thesis
  proof cases
    case inf
    then show ?thesis by (simp add: js_div_def is_inf_def Math_min_def)
  next
    case fin
    then have q: "js_div (Fin m) D = round64 (m / r)" "js_div (Fin m') D = round64 (m' / r)"
      by (simp_all add: js_div_def is_inf_def)
    have "0 \<le> m / r" "m / r \<le> m' / r" using assms(2,3) fin(2) by (simp_all add: divide_right_mono)
    from round64_mono[OF this] show ?thesis unfolding q by (rule Math_min_mono)
  qed
qed

text \<open>What the renderer does when the extraction of a track resolves.\<close>

lemma attach_node_tracks: "tracks (attach_node i out r) = tracks r"
  by (simp add: attach_node_def)

lemma set_track_progress:
  assumes "t \<in> set (tracks (set_track i f r))" and "track_audioIndex (track_info t) = i"
    and "\<And>u. track_progress (f u) = Fin 1" and "\<And>u. track_info (f u) = track_info u"
  shows "track_progress t = Fin 1"
proof -
  from assms(1) obtain u where u: "u \<in> set (tracks r)"
    "t = (if track_audioIndex (track_info u) = i then f u else u)"
    by (auto simp: set_track_def)
  show ?thesis
  proof (cases "track_audioIndex (track_info u) = i")
    case True
    with u(2) have "t = f u" by simp
    then show ?thesis by (simp add: assms(3))
  next
    case False
    with u(2) have "t = u" by simp
    with False assms(2) show ?thesis by simp
  qed
qed

lemma resolved_progress:
  assumes "t \<in> set (tracks (handleEnableTrack_resolved i response r))"
    and "track_audioIndex (track_info t) = i"
  shows "track_progress t = Fin 1"
proof -
  let ?f = "\<lambda>t. t\<lparr>extracting := False, track_progress := Fin 1,
                   track_outputPath := Some (outputPath response)\<rparr>"
  have "tracks (handleEnableTrack_resolved i response r) = tracks (set_track i ?f r)"
    unfolding handleEnableTrack_resolved_def attach_node_tracks by (simp add: set_track_def)
  with assms(1) have "t \<in> set (tracks (set_track i ?f r))" by simp
  then show ?thesis using assms(2) by (rule set_track_progress) simp_all
qed

lemma ended_resolved:
  assumes "map_of (children (main_state s)) pid = Some c" and "map_of (waiting s) pid = Some i"
  shows "renderer (act env s (Ended pid (Closed (Some 0)))) =
           handleEnableTrack_resolved i
             \<lparr>res_audioIndex = audioIndex (child_request c), outputPath = child_outputPath c\<rparr>
             (renderer s)"
proof -
  have r: "runFfmpegExtraction_close c (Closed (Some 0)) =
       Inr \<lparr>res_audioIndex = audioIndex (child_request c), outputPath = child_outputPath c\<rparr>"
    by (simp add: runFfmpegExtraction_close_def)
  show ?thesis unfolding act.simps assms by (simp add: r)
qed

text \<open>
  C1, as amended. Each value sent is \<open>Math.min(ms / (duration * 1000000), 1)\<close>, in binary64
  arithmetic, for an \<open>out_time_ms\<close> line: there is an upper clamp only, and nothing orders
  the values. So every value sent is NaN or at most 1; and when the duration is a finite
  positive number and every \<open>out_time_ms\<close> value is a finite number that is not negative,
  the values sent lie in [0,1], and they do not decrease if the elapsed times do not. When
  the encoder of a job exits with code 0, the renderer sets the progress of the track to
  exactly 1.
\<close>

theorem progress_values_bounded:
  "(\<forall>p \<in> set (sent_progress request w chunks). p = NaN \<or> js_le p (Fin 1))
   \<and> (duration request = Some dn \<and> truthy_number (Some dn)
      \<longrightarrow> sent_progress request True chunks =
            map (\<lambda>n. Math_min (js_div n (js_mul dn (Fin 1000000))) (Fin 1))
              (out_time_values request chunks))
   \<and> (duration request = Some (Fin d) \<and> 0 < d \<and> round64 d = Fin d
        \<and> out_time_values request chunks = map Fin ms \<and> (\<forall>m \<in> set ms. 0 \<le> m)
      \<longrightarrow> (\<forall>p \<in> set (sent_progress request w chunks). js_le (Fin 0) p \<and> js_le p (Fin 1))
          \<and> (sorted ms \<longrightarrow> sorted_wrt js_le (sent_progress request w chunks)))
   \<and> (map_of (children (main_state s)) pid = Some c \<and> map_of (waiting s) pid = Some i
      \<longrightarrow> (\<forall>t \<in> set (tracks (renderer (act env s (Ended pid (Closed (Some 0)))))).
             track_audioIndex (track_info t) = i \<longrightarrow> track_progress t = Fin 1))"
proof (intro conjI impI ballI)
  fix p assume "p \<in> set (sent_progress request w chunks)"
  then obtain line where "line_progress request line = Some p"
    using sent_progress_elem by blast
  then obtain x where "p = Math_min x (Fin 1)" using line_progress_form by blast
  then show "p = NaN \<or> js_le p (Fin 1)" using Math_min_one by simp
next
  assume "duration request = Some dn \<and> truthy_number (Some dn)"
  then show "sent_progress request True chunks =
            map (\<lambda>n. Math_min (js_div n (js_mul dn (Fin 1000000))) (Fin 1))
              (out_time_values request chunks)"
    using sent_progress_formula by blast
next
  assume h: "duration request = Some (Fin d) \<and> 0 < d \<and> round64 d = Fin d
        \<and> out_time_values request chunks = map Fin ms \<and> (\<forall>m \<in> set ms. 0 \<le> m)"
  then have d: "duration request = Some (Fin d)" "0 < d" "round64 d = Fin d"
    and ms: "out_time_values request chunks = map Fin ms" "\<forall>m \<in> set ms. 0 \<le> m"
    by auto
  let ?D = "js_mul (Fin d) (Fin 1000000)"
  let ?f = "\<lambda>m. Math_min (js_div (Fin m) ?D) (Fin 1)"
  note D = scaled_duration[OF d(2,3)]
  have t: "truthy_number (Some (Fin d))" using d(2) by simp
  have form: "sent_progress request True chunks = map ?f ms"
    unfolding sent_progress_formula[OF d(1) t] ms(1) by simp
  {
    fix p assume "p \<in> set (sent_progress request w chunks)"
    then have "p \<in> set (sent_progress request True chunks)"
      using sent_progress_window[of request w chunks] by (cases w) auto
    then obtain m where m: "m \<in> set ms" "p = ?f m"
      unfolding form by auto
    then have "0 \<le> m" using ms(2) by simp
    from progress_range[OF D this] obtain q where "?f m = Fin q" "0 \<le> q" "q \<le> 1" by blast
    with m(2) show "js_le (Fin 0) p" and "js_le p (Fin 1)" by simp_all
  }
  {
    assume s: "sorted ms"
    have "sorted_wrt (\<lambda>x y. js_le (?f x) (?f y)) ms"
    proof (rule sorted_wrt_mono_rel[of ms "(\<le>)"])
      show "sorted_wrt (\<le>) ms" using s by simp
    next
      fix x y :: rat assume "x \<in> set ms" "x \<le> y"
      then show "js_le (?f x) (?f y)"
        using progress_mono[OF D, of x y] ms(2) by simp
    qed
    then have "sorted_wrt js_le (map ?f ms)"
      by (simp add: sorted_wrt_map)
    then have "sorted_wrt js_le (sent_progress request True chunks)" using form by simp
    then show "sorted_wrt js_le (sent_progress request w chunks)"
      using sent_progress_window[of request w chunks] by (cases w) auto
  }
next
  fix t
  assume h: "map_of (children (main_state s)) pid = Some c \<and> map_of (waiting s) pid = Some i"
    and t: "t \<in> set (tracks (renderer (act env s (Ended pid (Closed (Some 0))))))"
      "track_audioIndex (track_info t) = i"
  let ?response =
    "\<lparr>res_audioIndex = audioIndex (child_request c), outputPath = child_outputPath c\<rparr>"
  from h have c: "map_of (children (main_state s)) pid = Some c"
    and i: "map_of (waiting s) pid = Some i" by simp_all
  have "t \<in> set (tracks (handleEnableTrack_resolved i ?response (renderer s)))"
    using t(1) unfolding ended_resolved[OF c i] .
  then show "track_progress t = Fin 1" using t(2) by (rule resolved_progress)
qed

lemma example_values:
  "out_time_values example_request example_chunks = map Fin [2500000, 5000000]"
  by (simp add: out_time_values_def example_lines line_key_def line_value_def number_eval)

lemma example_sent:
  "map (\<lambda>n. Math_min (js_div n (js_mul (Fin 10) (Fin 1000000))) (Fin 1))
     (map Fin [2500000, 5000000]) = [Fin (1 / 4), Fin (1 / 2)]"
  by (simp add: number_eval)

lemma falling_sent:
  "sent_progress example_request True falling_chunks = [Fin (1 / 2), Fin (- (1 / 4))]"
  by (simp add: sent_progress_def falling_chunks_def example_request_def stream_eval number_eval)

lemma unknown_time_sent:
  "sent_progress example_request True unknown_time_chunks = [NaN]"
  by (simp add: sent_progress_def unknown_time_chunks_def example_request_def stream_eval number_eval)

lemma endless_sent:
  "sent_progress endless_request True endless_chunks = [NaN]"
  by (simp add: sent_progress_def endless_chunks_def endless_request_def stream_eval number_eval)

lemma enabled_once:
  "map_of (children (main_state (acts example_env opened_system enable_once))) 0 =
     Some \<lparr>child_request =
             \<lparr>filePath = ''movie.mkv'', audioIndex = 0, duration = Some (Fin (25 / 2))\<rparr>,
           child_outputPath = ''/tmp/audio-track-selector-Ab12Cd/track_0.wav'',
           child_stderr = [], child_buffer = []\<rparr>"
  "map_of (waiting (acts example_env opened_system enable_once)) 0 = Some 0"
  by (simp_all add: enable_once_def system_eval)

lemma ended_once:
  "map (\<lambda>t. (track_audioIndex (track_info t), track_progress t))
     (tracks (renderer (act example_env (acts example_env opened_system enable_once)
        (Ended 0 (Closed (Some 0)))))) = [(0, Fin 1), (1, Fin 0), (2, Fin 0)]"
  by (simp add: enable_once_def system_eval)

theorem progress_values_bounded_witness:
  "duration example_request = Some (Fin 10) \<and> truthy_number (Some (Fin 10))
   \<and> (0::rat) < 10 \<and> round64 10 = Fin 10
   \<and> out_time_values example_request example_chunks = map Fin [2500000, 5000000]
   \<and> list_all (\<lambda>m. 0 \<le> m) [2500000, 5000000 :: rat] \<and> sorted [2500000, 5000000 :: rat]
   \<and> sent_progress example_request True example_chunks = [Fin (1 / 4), Fin (1 / 2)]
   \<and> list_all (\<lambda>p. js_le (Fin 0) p \<and> js_le p (Fin 1))
         (sent_progress example_request True example_chunks)
   \<and> sorted_wrt js_le (sent_progress example_request True example_chunks)
   \<and> map_of (waiting (acts example_env opened_system enable_once)) 0 = Some 0
   \<and> map (\<lambda>t. (track_audioIndex (track_info t), track_progress t))
        (tracks (renderer (act example_env (acts example_env opened_system enable_once)
           (Ended 0 (Closed (Some 0)))))) = [(0, Fin 1), (1, Fin 0), (2, Fin 0)]
   \<and> list_all (\<lambda>t. track_progress t = Fin 1)
        (filter (\<lambda>t. track_audioIndex (track_info t) = 0)
           (tracks (renderer (act example_env (acts example_env opened_system enable_once)
              (Ended 0 (Closed (Some 0)))))))"
proof -
  have d: "duration example_request = Some (Fin 10)" by (simp add: example_request_def)
  have t: "truthy_number (Some (Fin 10))" by simp
  have r: "round64 10 = Fin 10" by (simp add: round64_numeral)
  have ms: "\<forall>m \<in> set [2500000, 5000000 :: rat]. 0 \<le> m" by simp
  have s: "sorted [2500000, 5000000 :: rat]" by simp
  have pos: "(0::rat) < 10" by simp
  let ?c = "\<lparr>child_request =
               \<lparr>filePath = ''movie.mkv'', audioIndex = 0, duration = Some (Fin (25 / 2))\<rparr>,
             child_outputPath = ''/tmp/audio-track-selector-Ab12Cd/track_0.wav'',
             child_stderr = [], child_buffer = []\<rparr>"
  note inst = progress_values_bounded[of example_request True example_chunks "Fin 10" 10
      "[2500000, 5000000]" "acts example_env opened_system enable_once" 0 ?c 0 example_env]
  from inst d t have f: "sent_progress example_request True example_chunks =
      map (\<lambda>n. Math_min (js_div n (js_mul (Fin 10) (Fin 1000000))) (Fin 1))
        (out_time_values example_request example_chunks)"
    by blast
  then have v: "sent_progress example_request True example_chunks = [Fin (1 / 4), Fin (1 / 2)]"
    unfolding example_values example_sent .
  from inst d pos r example_values ms s
  have b: "(\<forall>p \<in> set (sent_progress example_request True example_chunks).
              js_le (Fin 0) p \<and> js_le p (Fin 1))
         \<and> sorted_wrt js_le (sent_progress example_request True example_chunks)"
    by blast
  from inst enabled_once
  have p: "\<forall>t \<in> set (tracks (renderer (act example_env
              (acts example_env opened_system enable_once) (Ended 0 (Closed (Some 0)))))).
             track_audioIndex (track_info t) = 0 \<longrightarrow> track_progress t = Fin 1"
    by blast
  have l: "list_all (\<lambda>t. track_progress t = Fin 1)
        (filter (\<lambda>t. track_audioIndex (track_info t) = 0)
           (tracks (renderer (act example_env (acts example_env opened_system enable_once)
              (Ended 0 (Closed (Some 0)))))))"
    using p by (simp add: list_all_iff)
  have b1: "list_all (\<lambda>p. js_le (Fin 0) p \<and> js_le p (Fin 1))
         (sent_progress example_request True example_chunks)"
    using b by (simp add: list_all_iff)
  have b2: "sorted_wrt js_le (sent_progress example_request True example_chunks)"
    using b by (elim conjE)
  have ms1: "list_all (\<lambda>m. 0 \<le> m) [2500000, 5000000 :: rat]" by simp
  show ?thesis
    by (intro conjI d t pos r example_values ms1 s v b1 b2 enabled_once(2) ended_once l)
qed

text \<open>
  C1 fails as stated. With a total duration of 10 s, the encoder prints an elapsed time of
  5 s and then one of -2.5 s: the values sent are 1/2 and -1/4; the second one is below 0
  and less than the one before. When the encoder prints \<open>N/A\<close> as the elapsed time, the
  value sent is NaN, which is not in [0,1]; and so it is when the duration and the elapsed
  time are both infinite.
\<close>

theorem progress_claim_counterexample:
  "sent_progress example_request True falling_chunks = [Fin (1 / 2), Fin (- (1 / 4))]
   \<and> \<not> js_le (Fin 0) (sent_progress example_request True falling_chunks ! 1)
   \<and> \<not> js_le (sent_progress example_request True falling_chunks ! 0)
            (sent_progress example_request True falling_chunks ! 1)
   \<and> sent_progress example_request True unknown_time_chunks = [NaN]
   \<and> \<not> js_le (Fin 0) (sent_progress example_request True unknown_time_chunks ! 0)
   \<and> sent_progress endless_request True endless_chunks = [NaN]"
  by (simp add: falling_sent unknown_time_sent endless_sent)

subsection \<open>One encoder process for each track\<close>

text \<open>
  The guard of \<open>handleEnableTrack\<close>: a request is sent when the track has no output path,
  whether or not its flag \<open>extracting\<close> is set, and none is sent once it has one.
\<close>

lemma enable_without_output:
  assumes "find (\<lambda>t. track_audioIndex (track_info t) = i) (tracks r) = Some t"
    and "track_outputPath t = None" and "opened_filePath r = Some path" and "path \<noteq> []"
  shows "snd (handleEnableTrack i True r) =
           Some \<lparr>filePath = path, audioIndex = i,
                 duration = (case probeResult r of None \<Rightarrow> None | Some p \<Rightarrow> probe_duration p)\<rparr>"
  using assms by (simp add: handleEnableTrack_def Let_def)

lemma enable_with_output:
  assumes "find (\<lambda>t. track_audioIndex (track_info t) = i) (tracks r) = Some t"
    and "track_outputPath t = Some out" and "out \<noteq> []"
  shows "snd (handleEnableTrack i en r) = None"
  using assms by (simp add: handleEnableTrack_def Let_def split: option.splits)

text \<open>
  C2. The code misses the claim. The renderer asks for an extraction whenever the track has
  no output path yet, and does not look at the flag \<open>extracting\<close> that it sets: after the
  box of track 0 is ticked, one encoder runs for audio index 0 and the track is marked as
  extracting; when the box is cleared and ticked again before that encoder ends, a second
  encoder is started for audio index 0. When the box is cleared and ticked again after the
  first encoder has exited with code 0, no second encoder is started.
\<close>

theorem second_encoder_while_extracting:
  "map (\<lambda>t. (track_audioIndex (track_info t), extracting t, track_outputPath t))
     (tracks (renderer (acts example_env opened_system enable_once)))
     = [(0, True, None), (1, False, None), (2, False, None)]
   \<and> length (in_flight 0 (main_state (acts example_env opened_system enable_once))) = 1
   \<and> length (in_flight 0
        (main_state (acts example_env opened_system enable_twice_while_extracting))) = 2
   \<and> spawned_for 0 (main_state (acts example_env opened_system enable_twice_while_extracting)) = 2
   \<and> spawned_for 0 (main_state (acts example_env opened_system enable_twice_after_success)) = 1"
proof -
  have a: "map (\<lambda>t. (track_audioIndex (track_info t), extracting t, track_outputPath t))
     (tracks (renderer (acts example_env opened_system enable_once)))
     = [(0, True, None), (1, False, None), (2, False, None)]"
    by (simp add: enable_once_def system_eval)
  have b: "length (in_flight 0 (main_state (acts example_env opened_system enable_once))) = 1"
    by (simp add: enable_once_def system_eval)
  have c: "length (in_flight 0
        (main_state (acts example_env opened_system enable_twice_while_extracting))) = 2"
    by (simp add: enable_twice_while_extracting_def system_eval)
  have d: "spawned_for 0
        (main_state (acts example_env opened_system enable_twice_while_extracting)) = 2"
    by (simp add: enable_twice_while_extracting_def system_eval)
  have e: "spawned_for 0 (main_state (acts example_env opened_system enable_twice_after_success)) = 1"
    by (simp add: enable_twice_after_success_def system_eval)
  from a b c d e show ?thesis by (intro conjI)
qed

subsection \<open>The session directory\<close>

lemma cleanupTempDir_returns: "fst (cleanupTempDir rm st) = Inr ()"
  by (simp add: cleanupTempDir_def Let_def split: option.splits)

lemma cleanupTempDir_clears:
  "tempDir st \<noteq> Some [] \<Longrightarrow> tempDir (snd (cleanupTempDir rm st)) = None"
  by (simp add: cleanupTempDir_def Let_def split: option.splits)

lemma cleanupTempDir_frame:
  "mainWindow (snd (cleanupTempDir rm st)) = mainWindow st"
  "next_pid (snd (cleanupTempDir rm st)) = next_pid st"
  "children (snd (cleanupTempDir rm st)) = children st"
  by (simp_all add: cleanupTempDir_def Let_def logToRenderer_frame emit_def split: option.splits)

lemma cleanupTempDir_trace:
  assumes "tempDir st = Some dir" and "dir \<noteq> []"
  shows "trace (snd (cleanupTempDir rm st)) =
           trace st @ Fs_rm dir #
             (case rm of
                None \<Rightarrow> []
              | Some e \<Rightarrow>
                  if mainWindow st then
                    [Send_log \<lparr>level = error,
                               message = ''Failed to clean temp directory: '' @ error_message e\<rparr>]
                  else [])"
  using assms
  by (simp add: cleanupTempDir_def Let_def logToRenderer_trace emit_def split: option.splits)

lemma update_child_frame:
  "mainWindow (update_child pid f st) = mainWindow st" "tempDir (update_child pid f st) = tempDir st"
  by (simp_all add: update_child_def)

lemma probe_file_frame:
  "mainWindow (snd (probe_file env path rm ending parsed errorOutput st)) = mainWindow st"
  "tempDir st \<noteq> Some [] \<Longrightarrow>
     tempDir (snd (probe_file env path rm ending parsed errorOutput st)) = None"
proof -
  obtain u st1 where c: "cleanupTempDir rm st = (u, st1)" by (cases "cleanupTempDir rm st")
  then have u: "u = Inr ()" and w: "mainWindow st1 = mainWindow st"
    using cleanupTempDir_returns[of rm st] cleanupTempDir_frame(1)[of rm st] by simp_all
  show "mainWindow (snd (probe_file env path rm ending parsed errorOutput st)) = mainWindow st"
    using c u w
    by (simp add: probe_file_def runFfprobe_def Let_def logToRenderer_frame emit_def split: sum.splits)
  assume "tempDir st \<noteq> Some []"
  then have "tempDir st1 = None" using c cleanupTempDir_clears[of st rm] by simp
  then show "tempDir (snd (probe_file env path rm ending parsed errorOutput st)) = None"
    using c u
    by (simp add: probe_file_def runFfprobe_def Let_def logToRenderer_frame emit_def split: sum.splits)
qed

lemma extract_track_frame:
  "mainWindow (extract_track env mk request st) = mainWindow st"
  "tempDir st \<noteq> Some [] \<Longrightarrow> tempDir (extract_track env mk request st) \<noteq> Some []"
  by (auto simp: extract_track_def runFfmpegExtraction_def ensureTempDir_def Let_def path_join_def
      logToRenderer_frame logToRenderer_def emit_def split: sum.splits option.splits prod.splits)

lemma child_stdout_frame:
  "mainWindow (child_stdout pid data st) = mainWindow st"
  "tempDir (child_stdout pid data st) = tempDir st"
  by (simp_all add: child_stdout_def update_child_frame split: option.splits prod.splits)

lemma child_ended_frame:
  "mainWindow (child_ended pid ending st) = mainWindow st"
  "tempDir (child_ended pid ending st) = tempDir st"
  by (simp_all add: child_ended_def Let_def logToRenderer_frame logToRenderer_def emit_def
      split: option.splits sum.splits)

lemma step_keeps:
  assumes "mainWindow st" and "tempDir st \<noteq> Some []"
  shows "mainWindow (step env st ev) \<and> tempDir (step env st ev) \<noteq> Some []"
proof (cases ev)
  case (Probe_file path rm ending parsed errorOutput)
  then show ?thesis
    using assms probe_file_frame(1)[of env path rm ending parsed errorOutput st]
      probe_file_frame(2)[OF assms(2), of env path rm ending parsed errorOutput] by simp
next
  case (Extract_track request mk)
  then show ?thesis
    using assms extract_track_frame(1)[of env mk request st]
      extract_track_frame(2)[OF assms(2), of env mk request] by simp
next
  case (Child_stdout pid data)
  then show ?thesis using assms by (simp add: child_stdout_frame)
next
  case (Child_stderr pid data)
  then show ?thesis using assms by (simp add: child_stderr_data_def update_child_frame)
next
  case (Child_end pid ending)
  then show ?thesis using assms by (simp add: child_ended_frame)
next
  case (Cleanup_temp rm)
  then show ?thesis using assms by (simp add: cleanupTempDir_frame cleanupTempDir_clears)
next
  case (Before_quit rm)
  then show ?thesis using assms by (simp add: cleanupTempDir_frame cleanupTempDir_clears)
qed

lemma run_keeps:
  assumes "mainWindow st" and "tempDir st \<noteq> Some []"
  shows "mainWindow (run env st evs) \<and> tempDir (run env st evs) \<noteq> Some []"
  using assms unfolding run_def
proof (induction evs arbitrary: st)
  case Nil
  then show ?case by simp
next
  case (Cons ev evs)
  from step_keeps[OF Cons.prems, of env ev] Cons.IH[of "step env st ev"]
  show ?case by simp
qed

lemma ready_keeps:
  "mainWindow (run env ready_state evs)" "tempDir (run env ready_state evs) \<noteq> Some []"
  using run_keeps[of ready_state env evs] by (simp_all add: ready_state_def)

lemma probe_file_after_cleanup:
  assumes "mainWindow st"
  shows "\<exists>t. trace (snd (probe_file env path rm ending parsed errorOutput st)) =
               trace (snd (cleanupTempDir rm st)) @ t
             \<and> Spawn (getFfprobePath env) (ffprobe_args path) \<in> set t"
proof -
  obtain u st1 where c: "cleanupTempDir rm st = (u, st1)" by (cases "cleanupTempDir rm st")
  then have u: "u = Inr ()" and s: "snd (cleanupTempDir rm st) = st1"
    using cleanupTempDir_returns[of rm st] by simp_all
  show ?thesis
    unfolding s using c u
    by (simp add: probe_file_def runFfprobe_def Let_def logToRenderer_trace logToRenderer_frame
        emit_def split: sum.splits)
qed

lemma extraction_after_cleanup:
  assumes "tempDir st \<noteq> Some []"
  shows "\<exists>st' t. runFfmpegExtraction env (Inr suffix) request (snd (cleanupTempDir rm st))
             = (Inr (next_pid st), st')
         \<and> tempDir st' = Some (path_join (tmpdir env) ''audio-track-selector-'' @ suffix)
         \<and> trace st' = trace (snd (cleanupTempDir rm st))
                          @ Fs_mkdtemp (path_join (tmpdir env) ''audio-track-selector-'') # t"
proof -
  let ?s = "snd (cleanupTempDir rm st)"
  have n: "tempDir ?s = None \<or> tempDir ?s = Some []"
    using assms by (simp add: cleanupTempDir_clears)
  show ?thesis
    using ensureTempDir_made[OF n, of env suffix] cleanupTempDir_frame(2)[of rm st]
    by (simp add: runFfmpegExtraction_def Let_def logToRenderer_frame logToRenderer_trace emit_def)
qed

text \<open>
  C9. In every state that the main process reaches after the window was created:
  \<open>cleanupTempDir\<close> returns normally and leaves \<open>tempDir\<close> cleared; when a session directory
  is set, it removes that directory recursively, and a failure of the removal is sent to the
  renderer as an error log line and changes nothing else. The handlers of \<open>cleanup-temp\<close>
  and \<open>before-quit\<close> do exactly this, and the handler of \<open>probe-file\<close> does it before it
  starts the prober. The next extraction then asks for a new directory and uses it.
\<close>

theorem cleanup_temp_dir:
  assumes "st = run env ready_state evs"
  shows "fst (cleanupTempDir rm st) = Inr ()
       \<and> tempDir (snd (cleanupTempDir rm st)) = None
       \<and> (\<forall>dir. tempDir st = Some dir \<and> dir \<noteq> [] \<longrightarrow>
             trace (snd (cleanupTempDir rm st)) =
               trace st @ Fs_rm dir #
                 (case rm of
                    None \<Rightarrow> []
                  | Some e \<Rightarrow>
                      [Send_log \<lparr>level = error,
                                 message = ''Failed to clean temp directory: '' @ error_message e\<rparr>]))
       \<and> step env st (Cleanup_temp rm) = snd (cleanupTempDir rm st)
       \<and> step env st (Before_quit rm) = snd (cleanupTempDir rm st)
       \<and> tempDir (step env st (Probe_file path rm ending parsed errorOutput)) = None
       \<and> (\<exists>t. trace (step env st (Probe_file path rm ending parsed errorOutput)) =
                 trace (snd (cleanupTempDir rm st)) @ t
               \<and> Spawn (getFfprobePath env) (ffprobe_args path) \<in> set t)
       \<and> (\<forall>request suffix. \<exists>st' t.
             runFfmpegExtraction env (Inr suffix) request (snd (cleanupTempDir rm st))
               = (Inr (next_pid st), st')
             \<and> tempDir st' = Some (path_join (tmpdir env) ''audio-track-selector-'' @ suffix)
             \<and> trace st' = trace (snd (cleanupTempDir rm st))
                              @ Fs_mkdtemp (path_join (tmpdir env) ''audio-track-selector-'') # t)"
proof -
  have w: "mainWindow st" and ne: "tempDir st \<noteq> Some []" using assms ready_keeps by simp_all
  have tr: "\<forall>dir. tempDir st = Some dir \<and> dir \<noteq> [] \<longrightarrow>
             trace (snd (cleanupTempDir rm st)) =
               trace st @ Fs_rm dir #
                 (case rm of
                    None \<Rightarrow> []
                  | Some e \<Rightarrow>
                      [Send_log \<lparr>level = error,
                                 message = ''Failed to clean temp directory: '' @ error_message e\<rparr>])"
    using w cleanupTempDir_trace[of st _ rm] by (auto split: option.splits)
  have s1: "step env st (Cleanup_temp rm) = snd (cleanupTempDir rm st)" by simp
  have s2: "step env st (Before_quit rm) = snd (cleanupTempDir rm st)" by simp
  have p1: "tempDir (step env st (Probe_file path rm ending parsed errorOutput)) = None"
    using probe_file_frame(2)[OF ne] by simp
  have p2: "\<exists>t. trace (step env st (Probe_file path rm ending parsed errorOutput)) =
                 trace (snd (cleanupTempDir rm st)) @ t
               \<and> Spawn (getFfprobePath env) (ffprobe_args path) \<in> set t"
    using probe_file_after_cleanup[OF w] by simp
  have ex: "\<forall>request suffix. \<exists>st' t.
             runFfmpegExtraction env (Inr suffix) request (snd (cleanupTempDir rm st))
               = (Inr (next_pid st), st')
             \<and> tempDir st' = Some (path_join (tmpdir env) ''audio-track-selector-'' @ suffix)
             \<and> trace st' = trace (snd (cleanupTempDir rm st))
                              @ Fs_mkdtemp (path_join (tmpdir env) ''audio-track-selector-'') # t"
    using extraction_after_cleanup[OF ne] by blast
  show ?thesis
    by (intro conjI cleanupTempDir_returns cleanupTempDir_clears[OF ne] tr s1 s2 p1 p2 ex)
qed

lemma one_request_state:
  "tempDir (run example_env ready_state [Extract_track example_request (Inr example_suffix)])
     = Some example_dir"
  by (simp add: app_eval example_dir_made)

theorem cleanup_temp_dir_witness:
  "tempDir (run example_env ready_state [Extract_track example_request (Inr example_suffix)])
     = Some example_dir
   \<and> example_dir \<noteq> []
   \<and> fst (cleanupTempDir (Some (SystemError ''EBUSY: resource busy or locked''))
         (run example_env ready_state [Extract_track example_request (Inr example_suffix)])) = Inr ()
   \<and> tempDir (snd (cleanupTempDir (Some (SystemError ''EBUSY: resource busy or locked''))
         (run example_env ready_state [Extract_track example_request (Inr example_suffix)]))) = None
   \<and> trace (snd (cleanupTempDir (Some (SystemError ''EBUSY: resource busy or locked''))
         (run example_env ready_state [Extract_track example_request (Inr example_suffix)]))) =
       trace (run example_env ready_state [Extract_track example_request (Inr example_suffix)])
         @ [Fs_rm example_dir,
            Send_log \<lparr>level = error,
                      message = ''Failed to clean temp directory: EBUSY: resource busy or locked''\<rparr>]"
proof -
  let ?st = "run example_env ready_state [Extract_track example_request (Inr example_suffix)]"
  have n: "example_dir \<noteq> []" by (simp add: example_dir_def)
  from cleanup_temp_dir[of ?st example_env "[Extract_track example_request (Inr example_suffix)]"
      "Some (SystemError ''EBUSY: resource busy or locked'')"]
    one_request_state n
  show ?thesis by simp
qed

subsection \<open>The file dialog\<close>

text \<open>
  C10. The handler of \<open>open-file\<close> returns \<open>null\<close> when the dialog was canceled or gave no
  path, and the first selected path otherwise.
\<close>

theorem open_file_result:
  "(canceled result \<or> filePaths result = [] \<longrightarrow> open_file result = None)
   \<and> (\<not> canceled result \<and> filePaths result = p # ps \<longrightarrow> open_file result = Some p)"
  by (simp add: open_file_def)

theorem open_file_result_witness:
  "open_file \<lparr>canceled = True, filePaths = [''/home/user/movie.mkv'']\<rparr> = None
   \<and> open_file \<lparr>canceled = False, filePaths = []\<rparr> = None
   \<and> open_file \<lparr>canceled = False, filePaths = [''/home/user/movie.mkv'', ''/home/user/other.mp4'']\<rparr>
       = Some ''/home/user/movie.mkv''"
  using open_file_result[of "\<lparr>canceled = True, filePaths = [''/home/user/movie.mkv'']\<rparr>"]
    open_file_result[of "\<lparr>canceled = False, filePaths = []\<rparr>"]
    open_file_result[of "\<lparr>canceled = False, filePaths = [''/home/user/movie.mkv'', ''/home/user/other.mp4'']\<rparr>"
       "''/home/user/movie.mkv''" "[''/home/user/other.mp4'']"]
  by simp

end
